theory Spec2Isabelle
  imports Complex_Main "HOL-Library.Sublist"
begin

section \<open>JavaScript strings\<close>

text \<open>
  A source string is modelled as a \<^typ>\<open>string\<close>: a list of characters with codes
  below 256 (the Latin-1 range of JavaScript's code units). The helpers below are the
  built-in string operations the sources call.
\<close>

definition LF :: char where
  "LF = CHR 0x0A"

definition DQ :: char where
  "DQ = CHR 0x22"

definition SQ :: char where
  "SQ = CHR 0x27"

definition BSL :: char where
  "BSL = CHR 0x5C"

text \<open>The class \<^verbatim>\<open>\s\<close> of regular expressions, which is also what \<^verbatim>\<open>trim\<close> strips:
  TAB, LF, VT, FF, CR, space and the no-break space.\<close>

definition js_space :: "char \<Rightarrow> bool" where
  "js_space c = (c \<in> set [CHR 0x09, CHR 0x0A, CHR 0x0B, CHR 0x0C, CHR 0x0D, CHR 0x20, CHR 0xA0])"

text \<open>The class \<^verbatim>\<open>\d\<close>.\<close>

definition js_digit :: "char \<Rightarrow> bool" where
  "js_digit c = (c \<in> set ''0123456789'')"

text \<open>\<^verbatim>\<open>toLowerCase\<close> on one character: the ASCII capitals and the Latin-1 capitals
  (all of 0xC0..0xDE but the multiplication sign) move up by 32.\<close>

definition lower_char :: "char \<Rightarrow> char" where
  "lower_char c =
     (let n = (of_char c :: nat)
      in if (65 \<le> n \<and> n \<le> 90) \<or> (192 \<le> n \<and> n \<le> 222 \<and> n \<noteq> 215)
         then char_of (n + 32) else c)"

definition toLowerCase :: "string \<Rightarrow> string" where
  "toLowerCase s = map lower_char s"

fun starts_with :: "string \<Rightarrow> string \<Rightarrow> bool" where
  "starts_with s [] = True"
| "starts_with [] (k # ks) = False"
| "starts_with (c # cs) (k # ks) = (c = k \<and> starts_with cs ks)"

text \<open>\<^verbatim>\<open>s.includes(kw)\<close>: \<open>kw\<close> occurs in \<open>s\<close> as a contiguous substring.\<close>

fun str_includes :: "string \<Rightarrow> string \<Rightarrow> bool" where
  "str_includes [] kw = (kw = [])"
| "str_includes (c # cs) kw = (starts_with (c # cs) kw \<or> str_includes cs kw)"

text \<open>\<^verbatim>\<open>s.trim()\<close>.\<close>

definition trim :: "string \<Rightarrow> string" where
  "trim s = rev (dropWhile js_space (rev (dropWhile js_space s)))"

text \<open>\<^verbatim>\<open>s.substring(0, n)\<close>.\<close>

definition substring0 :: "nat \<Rightarrow> string \<Rightarrow> string" where
  "substring0 n s = take n s"

text \<open>\<^verbatim>\<open>s.split(/\s+/)\<close>: every maximal run of white space is one separator, so a
  string that starts or ends with white space yields an empty first or last piece, and
  the empty string yields one empty piece.\<close>

function split_ws :: "string \<Rightarrow> string list" where
  "split_ws [] = [[]]"
| "split_ws (c # cs) =
     (if js_space c then [] # split_ws (dropWhile js_space cs)
      else (case split_ws cs of [] \<Rightarrow> [[c]] | p # ps \<Rightarrow> (c # p) # ps))"
  by pat_completeness auto
termination
  by (relation "measure length") (auto simp: length_dropWhile_le le_imp_less_Suc)

section \<open>Regular expressions of the sources\<close>

text \<open>
  Every regular expression in the modelled functions is a sequence of one-character
  atoms (a literal or a character class), each with a quantifier, with at most one
  capture group, which encloses one atom or a few adjacent ones. \<open>rx_match\<close> is the
  backtracking matcher at a fixed start position: quantifiers are greedy, a longer
  repetition is tried before a shorter one, and the first success wins. It returns the
  length of the match and the text of the capture group (of the atoms flagged as inside
  the group; empty when the expression has none).
\<close>

datatype quant = One | Opt | Star | Plus

datatype atom = Atom "char \<Rightarrow> bool" quant bool

fun qmin :: "quant \<Rightarrow> nat" where
  "qmin One = 1"
| "qmin Opt = 0"
| "qmin Star = 0"
| "qmin Plus = 1"

fun qmax :: "quant \<Rightarrow> nat \<Rightarrow> nat" where
  "qmax One n = min 1 n"
| "qmax Opt n = min 1 n"
| "qmax Star n = n"
| "qmax Plus n = n"

text \<open>\<open>rx_try p q g rest s k\<close> lets the first atom take \<open>k\<close> characters and matches the
  rest of the expression after them; when that fails it backtracks to \<open>k - 1\<close>
  characters, down to the minimum of the quantifier.\<close>

function rx_match :: "atom list \<Rightarrow> string \<Rightarrow> (nat \<times> string) option"
  and rx_try :: "(char \<Rightarrow> bool) \<Rightarrow> quant \<Rightarrow> bool \<Rightarrow> atom list \<Rightarrow> string \<Rightarrow> nat
                 \<Rightarrow> (nat \<times> string) option"
where
  "rx_match [] s = Some (0, [])"
| "rx_match (Atom p q g # rest) s = rx_try p q g rest s (qmax q (length (takeWhile p s)))"
| "rx_try p q g rest s k =
     (if k < qmin q then None
      else (case rx_match rest (drop k s) of
              Some (len, cap) \<Rightarrow> Some (k + len, if g then take k s @ cap else cap)
            | None \<Rightarrow> if k = 0 then None else rx_try p q g rest s (k - 1)))"
  by pat_completeness auto
termination
  by (relation "measures
        [\<lambda>x. case x of Inl (re, s) \<Rightarrow> length re | Inr (p, q, g, rest, s, k) \<Rightarrow> length rest,
         \<lambda>x. case x of Inl (re, s) \<Rightarrow> 0 | Inr (p, q, g, rest, s, k) \<Rightarrow> Suc k]") auto

declare rx_try.simps [simp del]

text \<open>The leftmost match: \<^verbatim>\<open>s.match(re)\<close> and \<^verbatim>\<open>re.test(s)\<close> for an expression
  without the \<^verbatim>\<open>g\<close> flag. The result is the text of the capture group.\<close>

fun rx_exec :: "atom list \<Rightarrow> string \<Rightarrow> string option" where
  "rx_exec re [] = map_option snd (rx_match re [])"
| "rx_exec re (c # cs) =
     (case rx_match re (c # cs) of Some (len, cap) \<Rightarrow> Some cap | None \<Rightarrow> rx_exec re cs)"

text \<open>\<^verbatim>\<open>s.replace(re, '$1')\<close> for an expression with the \<^verbatim>\<open>g\<close> flag: every match,
  found from left to right without overlap, is replaced by the text of its capture
  group. (After an empty match the scan moves on by one character.)\<close>

function rx_replace_group :: "atom list \<Rightarrow> string \<Rightarrow> string" where
  "rx_replace_group re [] = (case rx_match re [] of Some (len, cap) \<Rightarrow> cap | None \<Rightarrow> [])"
| "rx_replace_group re (c # cs) =
     (case rx_match re (c # cs) of
        None \<Rightarrow> c # rx_replace_group re cs
      | Some (len, cap) \<Rightarrow>
          if len = 0 then cap @ c # rx_replace_group re cs
          else cap @ rx_replace_group re (drop len (c # cs)))"
  by pat_completeness auto
termination
  by (relation "measure (\<lambda>(re, s). length s)") auto

definition rx_test :: "atom list \<Rightarrow> string \<Rightarrow> bool" where
  "rx_test re s = (rx_exec re s \<noteq> None)"

text \<open>A literal character, and a literal under the \<^verbatim>\<open>i\<close> flag.\<close>

definition lit :: "char \<Rightarrow> atom" where
  "lit c = Atom (\<lambda>x. x = c) One False"

definition lit_i :: "char \<Rightarrow> atom" where
  "lit_i c = Atom (\<lambda>x. lower_char x = lower_char c) One False"

section \<open>Complexity analyzer\<close>

datatype difficulty = NOVICE | INTERMEDIATE | ADVANCED | EXPERT | MASTER

record complexity =
  difficulty :: difficulty
  iterations :: int
  score :: int

definition techKeywords :: "string list" where
  "techKeywords =
     [''algorithm'', ''framework'', ''architecture'', ''microservice'', ''database'', ''api'',
      ''sdk'', ''ml'', ''ai'', ''neural'', ''blockchain'', ''docker'', ''kubernetes'',
      ''encryption'', ''protocol'', ''latency'', ''throughput'', ''concurrency'',
      ''distributed'', ''cloud'', ''python'', ''javascript'', ''java'', ''c++'', ''rust'', ''go'']"

definition domainKeywords :: "string list" where
  "domainKeywords =
     [''regulation'', ''compliance'', ''governance'', ''strategy'', ''analytics'', ''research'',
      ''finance'', ''biotech'', ''healthcare'', ''supply chain'', ''marketing'', ''production'',
      ''enterprise'']"

text \<open>The four structural patterns: \<^verbatim>\<open>/\n\s*\d+\./\<close>, \<^verbatim>\<open>/\n\s*\-/\<close>, three backquotes,
  and \<^verbatim>\<open>/#/\<close>.\<close>

definition numbered_list_pattern :: "atom list" where
  "numbered_list_pattern =
     [lit LF, Atom js_space Star False, Atom js_digit Plus False, lit (CHR ''.'')]"

definition bullet_list_pattern :: "atom list" where
  "bullet_list_pattern = [lit LF, Atom js_space Star False, lit (CHR ''-'')]"

definition code_fence_pattern :: "atom list" where
  "code_fence_pattern = [lit (CHR 0x60), lit (CHR 0x60), lit (CHR 0x60)]"

definition heading_pattern :: "atom list" where
  "heading_pattern = [lit (CHR ''#'')]"

definition structuralPatterns :: "atom list list" where
  "structuralPatterns =
     [numbered_list_pattern, bullet_list_pattern, code_fence_pattern, heading_pattern]"

definition logicWords :: "string list" where
  "logicWords =
     ['' if '', '' then '', '' when '', '' unless '', '' until '', ''depending on'', ''while '']"

definition words :: "string \<Rightarrow> int" where
  "words rawPrompt = int (length (split_ws rawPrompt))"

definition techHits :: "string \<Rightarrow> int" where
  "techHits rawPrompt = int (length (filter (str_includes (toLowerCase rawPrompt)) techKeywords))"

definition domainHits :: "string \<Rightarrow> int" where
  "domainHits rawPrompt = int (length (filter (str_includes (toLowerCase rawPrompt)) domainKeywords))"

definition structuralHits :: "string \<Rightarrow> int" where
  "structuralHits rawPrompt = int (length (filter (\<lambda>pat. rx_test pat rawPrompt) structuralPatterns))"

definition logicHits :: "string \<Rightarrow> int" where
  "logicHits rawPrompt = int (length (filter (str_includes (toLowerCase rawPrompt)) logicWords))"

text \<open>\<^verbatim>\<open>(rawPrompt.match(/[;\{\[]/g) || []).length\<close>: the number of semicolons, opening
  braces and opening brackets.\<close>

definition specialChars :: "string \<Rightarrow> int" where
  "specialChars rawPrompt = int (length (filter (\<lambda>c. c \<in> set '';{['') rawPrompt))"

definition analyzePromptComplexity :: "string \<Rightarrow> complexity" where
  "analyzePromptComplexity rawPrompt =
     (let score0 = (0 :: int);
          score1 = score0 + (if words rawPrompt > 400 then 4
                             else if words rawPrompt > 250 then 3
                             else if words rawPrompt > 120 then 2
                             else if words rawPrompt > 60 then 1 else 0);
          score2 = score1 + min (techHits rawPrompt) 4;
          score3 = score2 + min (domainHits rawPrompt) 3;
          score4 = score3 + min (structuralHits rawPrompt) 4;
          score5 = score4 + min (logicHits rawPrompt) 3;
          score6 = score5 + (if specialChars rawPrompt \<ge> 5 then 2
                             else if specialChars rawPrompt \<ge> 2 then 1 else 0)
      in if score6 \<le> 4 then \<lparr>difficulty = NOVICE, iterations = 1, score = score6\<rparr>
         else if score6 \<le> 8 then \<lparr>difficulty = INTERMEDIATE, iterations = 2, score = score6\<rparr>
         else if score6 \<le> 12 then \<lparr>difficulty = ADVANCED, iterations = 3, score = score6\<rparr>
         else if score6 \<le> 16 then \<lparr>difficulty = EXPERT, iterations = 4, score = score6\<rparr>
         else \<lparr>difficulty = MASTER, iterations = 5, score = score6\<rparr>)"

subsection \<open>A 500-word example input\<close>

text \<open>\<open>pad n\<close> is \<open>n\<close> one-letter words, each followed by a space. \<open>pad_free kw\<close>
  says that \<open>kw\<close> cannot start inside such padding that is followed by the letter x.\<close>

definition pad :: "nat \<Rightarrow> string" where
  "pad n = concat (replicate n ''x '')"

definition pad_free :: "string \<Rightarrow> bool" where
  "pad_free kw = (case kw of [] \<Rightarrow> False
     | k1 # r \<Rightarrow> k1 \<noteq> CHR ''x'' \<and> (k1 = CHR '' '' \<longrightarrow> (case r of [] \<Rightarrow> False | k2 # _ \<Rightarrow> k2 \<noteq> CHR ''x'')))"

definition c5_tail :: string where
  "c5_tail = ''x framework database docker rust python'' @ [LF] @ ''1. x'' @ [LF] @ ''2. x if x then x''"

definition c5_input :: string where
  "c5_input = pad 486 @ c5_tail"

section \<open>JSON values and the built-in parser\<close>

text \<open>
  The values of JavaScript that \<^verbatim>\<open>JSON.parse\<close> produces. A number is kept as the exact
  rational it denotes; an object as the list of its members in source order, a later
  member with the same key hiding an earlier one. JavaScript's \<^verbatim>\<open>null\<close> is \<open>JNull\<close>.
\<close>

datatype json =
    JNull
  | JBool bool
  | JNumber rat
  | JString string
  | JArray "json list"
  | JObject "(string \<times> json) list"

text \<open>Truthiness, as tested by \<^verbatim>\<open>!x\<close> and \<^verbatim>\<open>x || y\<close>. A number is falsy when it is
  zero as a double, that is when its magnitude is at most \<open>2 ^ -1075\<close>.\<close>

fun truthy :: "json \<Rightarrow> bool" where
  "truthy JNull = False"
| "truthy (JBool b) = b"
| "truthy (JNumber q) = (1 < \<bar>q\<bar> * 2 ^ 1075)"
| "truthy (JString s) = (s \<noteq> [])"
| "truthy (JArray xs) = True"
| "truthy (JObject kvs) = True"

text \<open>Property access \<^verbatim>\<open>v.k\<close> for a key that no prototype defines: the value of the
  last member named \<open>k\<close> of an object, and \<^verbatim>\<open>undefined\<close> (\<open>None\<close>) otherwise.\<close>

fun get_prop :: "json \<Rightarrow> string \<Rightarrow> json option" where
  "get_prop (JObject kvs) k = map_of (rev kvs) k"
| "get_prop v k = None"

text \<open>\<^verbatim>\<open>a || b\<close> where \<open>a\<close> is a property that may be undefined.\<close>

definition or_else :: "json option \<Rightarrow> json \<Rightarrow> json" where
  "or_else a b = (case a of None \<Rightarrow> b | Some v \<Rightarrow> if truthy v then v else b)"

subsection \<open>JSON.parse\<close>

text \<open>
  The grammar of ECMA-404, as \<^verbatim>\<open>JSON.parse\<close> implements it: white space is space, TAB,
  LF and CR; a string may not contain a raw control character; a number has no leading
  zero or plus sign. \<open>None\<close> stands for the \<^verbatim>\<open>SyntaxError\<close> that \<^verbatim>\<open>JSON.parse\<close> throws.
  A \<^verbatim>\<open>\uXXXX\<close> escape yields the character of that code (codes above 255 lie outside
  the character model and are taken modulo 256).
\<close>

definition json_ws :: "char \<Rightarrow> bool" where
  "json_ws c = (c \<in> set [CHR 0x20, CHR 0x09, CHR 0x0A, CHR 0x0D])"

definition skip_ws :: "string \<Rightarrow> string" where
  "skip_ws s = dropWhile json_ws s"

definition json_trim :: "string \<Rightarrow> string" where
  "json_trim s = rev (dropWhile json_ws (rev (dropWhile json_ws s)))"

definition hex_val :: "char \<Rightarrow> nat option" where
  "hex_val c =
     (let n = (of_char c :: nat)
      in if 48 \<le> n \<and> n \<le> 57 then Some (n - 48)
         else if 65 \<le> n \<and> n \<le> 70 then Some (n - 55)
         else if 97 \<le> n \<and> n \<le> 102 then Some (n - 87)
         else None)"

definition hex4 :: "char \<Rightarrow> char \<Rightarrow> char \<Rightarrow> char \<Rightarrow> nat option" where
  "hex4 a b c d =
     (case (hex_val a, hex_val b, hex_val c, hex_val d) of
        (Some w, Some x, Some y, Some z) \<Rightarrow> Some (((w * 16 + x) * 16 + y) * 16 + z)
      | _ \<Rightarrow> None)"

definition unescape :: "char \<Rightarrow> char option" where
  "unescape e =
     (if e = DQ then Some DQ
      else if e = BSL then Some BSL
      else if e = CHR ''/'' then Some (CHR ''/'')
      else if e = CHR ''b'' then Some (CHR 0x08)
      else if e = CHR ''f'' then Some (CHR 0x0C)
      else if e = CHR ''n'' then Some (CHR 0x0A)
      else if e = CHR ''r'' then Some (CHR 0x0D)
      else if e = CHR ''t'' then Some (CHR 0x09)
      else None)"

text \<open>The characters of a string literal after its opening quote, up to and including
  the closing quote; the result is the decoded string and the rest of the input.\<close>

fun parse_chars :: "string \<Rightarrow> (string \<times> string) option" where
  "parse_chars [] = None"
| "parse_chars (c # cs) =
     (if c = DQ then Some ([], cs)
      else if c = BSL then
        (case cs of
           [] \<Rightarrow> None
         | e # r \<Rightarrow>
             if e = CHR ''u'' then
               (case r of
                  h1 # h2 # h3 # h4 # r' \<Rightarrow>
                    (case hex4 h1 h2 h3 h4 of
                       None \<Rightarrow> None
                     | Some n \<Rightarrow>
                         (case parse_chars r' of
                            None \<Rightarrow> None
                          | Some (str, rest) \<Rightarrow> Some (char_of n # str, rest)))
                | _ \<Rightarrow> None)
             else
               (case unescape e of
                  None \<Rightarrow> None
                | Some x \<Rightarrow>
                    (case parse_chars r of
                       None \<Rightarrow> None
                     | Some (str, rest) \<Rightarrow> Some (x # str, rest))))
      else if (of_char c :: nat) < 32 then None
      else (case parse_chars cs of
              None \<Rightarrow> None
            | Some (str, rest) \<Rightarrow> Some (c # str, rest)))"

definition digit_val :: "char \<Rightarrow> nat" where
  "digit_val c = of_char c - 48"

definition digits_val :: "string \<Rightarrow> nat" where
  "digits_val ds = foldl (\<lambda>acc d. acc * 10 + digit_val d) 0 ds"

definition scale10 :: "rat \<Rightarrow> int \<Rightarrow> rat" where
  "scale10 m e = (if 0 \<le> e then m * 10 ^ nat e else m / 10 ^ nat (- e))"

text \<open>A number: an optional minus sign, an integer part (a single zero, or a nonzero
  digit followed by digits), an optional fraction and an optional exponent.\<close>

definition parse_int_part :: "string \<Rightarrow> (string \<times> string) option" where
  "parse_int_part s =
     (case s of
        [] \<Rightarrow> None
      | d # r \<Rightarrow>
          if d = CHR ''0'' then Some ([d], r)
          else if js_digit d then Some (d # takeWhile js_digit r, dropWhile js_digit r)
          else None)"

definition parse_frac_part :: "string \<Rightarrow> (string \<times> string) option" where
  "parse_frac_part s =
     (case s of
        [] \<Rightarrow> Some ([], s)
      | d # r \<Rightarrow>
          if d = CHR ''.'' then
            (if takeWhile js_digit r = [] then None
             else Some (takeWhile js_digit r, dropWhile js_digit r))
          else Some ([], s))"

definition parse_exp_digits :: "int \<Rightarrow> string \<Rightarrow> (int \<times> string) option" where
  "parse_exp_digits sg s =
     (if takeWhile js_digit s = [] then None
      else Some (sg * int (digits_val (takeWhile js_digit s)), dropWhile js_digit s))"

definition parse_exp_part :: "string \<Rightarrow> (int \<times> string) option" where
  "parse_exp_part s =
     (case s of
        [] \<Rightarrow> Some (0, s)
      | e # r \<Rightarrow>
          if e = CHR ''e'' \<or> e = CHR ''E'' then
            (case r of
               [] \<Rightarrow> None
             | x # r' \<Rightarrow>
                 if x = CHR ''+'' then parse_exp_digits 1 r'
                 else if x = CHR ''-'' then parse_exp_digits (- 1) r'
                 else parse_exp_digits 1 r)
          else Some (0, s))"

definition parse_unsigned :: "string \<Rightarrow> (rat \<times> string) option" where
  "parse_unsigned s =
     (case parse_int_part s of
        None \<Rightarrow> None
      | Some (ip, r1) \<Rightarrow>
          (case parse_frac_part r1 of
             None \<Rightarrow> None
           | Some (fp, r2) \<Rightarrow>
               (case parse_exp_part r2 of
                  None \<Rightarrow> None
                | Some (ex, r3) \<Rightarrow>
                    Some (scale10 (of_nat (digits_val (ip @ fp))) (ex - int (length fp)), r3))))"

definition parse_number :: "string \<Rightarrow> (rat \<times> string) option" where
  "parse_number s =
     (case s of
        [] \<Rightarrow> None
      | c # r \<Rightarrow>
          if c = CHR ''-'' then
            (case parse_unsigned r of None \<Rightarrow> None | Some (q, rest) \<Rightarrow> Some (- q, rest))
          else parse_unsigned s)"

text \<open>
  Values, array elements and object members, by recursive descent. Each function
  expects its input to start at the first character of what it parses. The first
  argument bounds the number of nested calls; a call chain uses at most two units per
  character read, so \<open>2 * length s + 1\<close> units are never used up on input \<open>s\<close>
  (lemma \<open>parse_value_enough_fuel\<close>).
  \<open>parse_elements\<close> reads the elements of a non-empty array up to and including the
  closing bracket, \<open>parse_members\<close> the members of a non-empty object up to and
  including the closing brace.
\<close>

fun parse_value :: "nat \<Rightarrow> string \<Rightarrow> (json \<times> string) option"
  and parse_elements :: "nat \<Rightarrow> string \<Rightarrow> (json list \<times> string) option"
  and parse_members :: "nat \<Rightarrow> string \<Rightarrow> ((string \<times> json) list \<times> string) option"
where
  "parse_value 0 s = None"
| "parse_value (Suc n) s =
     (case s of
        [] \<Rightarrow> None
      | c # cs \<Rightarrow>
          if c = CHR ''{'' then
            (case skip_ws cs of
               [] \<Rightarrow> None
             | d # r \<Rightarrow>
                 if d = CHR ''}'' then Some (JObject [], r)
                 else (case parse_members n (d # r) of
                         None \<Rightarrow> None
                       | Some (kvs, rest) \<Rightarrow> Some (JObject kvs, rest)))
          else if c = CHR ''['' then
            (case skip_ws cs of
               [] \<Rightarrow> None
             | d # r \<Rightarrow>
                 if d = CHR '']'' then Some (JArray [], r)
                 else (case parse_elements n (d # r) of
                         None \<Rightarrow> None
                       | Some (vs, rest) \<Rightarrow> Some (JArray vs, rest)))
          else if c = DQ then
            (case parse_chars cs of
               None \<Rightarrow> None
             | Some (str, rest) \<Rightarrow> Some (JString str, rest))
          else if starts_with s ''true'' then Some (JBool True, drop 4 s)
          else if starts_with s ''false'' then Some (JBool False, drop 5 s)
          else if starts_with s ''null'' then Some (JNull, drop 4 s)
          else (case parse_number s of
                  None \<Rightarrow> None
                | Some (q, rest) \<Rightarrow> Some (JNumber q, rest)))"
| "parse_elements 0 s = None"
| "parse_elements (Suc n) s =
     (case parse_value n s of
        None \<Rightarrow> None
      | Some (v, r) \<Rightarrow>
          (case skip_ws r of
             [] \<Rightarrow> None
           | d # r' \<Rightarrow>
               if d = CHR '','' then
                 (case parse_elements n (skip_ws r') of
                    None \<Rightarrow> None
                  | Some (vs, rest) \<Rightarrow> Some (v # vs, rest))
               else if d = CHR '']'' then Some ([v], r')
               else None))"
| "parse_members 0 s = None"
| "parse_members (Suc n) s =
     (case s of
        [] \<Rightarrow> None
      | c # cs \<Rightarrow>
          if c \<noteq> DQ then None
          else
            (case parse_chars cs of
               None \<Rightarrow> None
             | Some (k, r) \<Rightarrow>
                 (case skip_ws r of
                    [] \<Rightarrow> None
                  | d # r1 \<Rightarrow>
                      if d \<noteq> CHR '':'' then None
                      else
                        (case parse_value n (skip_ws r1) of
                           None \<Rightarrow> None
                         | Some (v, r2) \<Rightarrow>
                             (case skip_ws r2 of
                                [] \<Rightarrow> None
                              | e # r3 \<Rightarrow>
                                  if e = CHR '','' then
                                    (case parse_members n (skip_ws r3) of
                                       None \<Rightarrow> None
                                     | Some (kvs, rest) \<Rightarrow> Some ((k, v) # kvs, rest))
                                  else if e = CHR ''}'' then Some ([(k, v)], r3)
                                  else None)))))"

text \<open>\<^verbatim>\<open>JSON.parse(text)\<close>: one value, with white space allowed before and after it.\<close>

definition JSON_parse :: "string \<Rightarrow> json option" where
  "JSON_parse text =
     (case parse_value (2 * length (json_trim text) + 1) (json_trim text) of
        None \<Rightarrow> None
      | Some (v, rest) \<Rightarrow> if rest = [] then Some v else None)"


section \<open>Response parsing: generateInitialPrompt and refinePrompt\<close>

text \<open>\<^verbatim>\<open>s.indexOf(c)\<close>, \<^verbatim>\<open>s.lastIndexOf(c)\<close> (\<open>None\<close> for \<open>-1\<close>) and \<^verbatim>\<open>s.slice(a, b)\<close>
  for \<open>0 \<le> a\<close>, \<open>0 \<le> b\<close>.\<close>

fun indexOf :: "char \<Rightarrow> string \<Rightarrow> nat option" where
  "indexOf c [] = None"
| "indexOf c (x # xs) = (if x = c then Some 0 else map_option Suc (indexOf c xs))"

definition lastIndexOf :: "char \<Rightarrow> string \<Rightarrow> nat option" where
  "lastIndexOf c s = map_option (\<lambda>i. length s - 1 - i) (indexOf c (rev s))"

definition slice :: "nat \<Rightarrow> nat \<Rightarrow> string \<Rightarrow> string" where
  "slice a b s = take (b - a) (drop a s)"

text \<open>What a call of the backend client gives back to the two functions: the text
  \<^verbatim>\<open>response.choices[0].message.content\<close>, or an exception (from the client, or from
  reading a response that has no such text).\<close>

datatype backend_result = Failure | Content string

text \<open>The object both functions return: \<^verbatim>\<open>{ prompt, edits }\<close>.\<close>

record step_result =
  prompt :: json
  edits :: "string option"

definition no_result :: step_result where
  "no_result = \<lparr>prompt = JNull, edits = None\<rparr>"

definition requiredFields :: "string list" where
  "requiredFields = [''context'', ''role'', ''task'', ''constraints'', ''output'']"

text \<open>\<^verbatim>\<open>parsed.hasOwnProperty(field)\<close> for one of the required fields. The method is
  looked up on the value itself: on \<^verbatim>\<open>null\<close> the lookup throws, and an object that has
  a member named \<^verbatim>\<open>hasOwnProperty\<close> of its own hides the inherited method by a value
  that is not callable, so the call throws a \<^verbatim>\<open>TypeError\<close> (\<open>None\<close>). Values that are
  not objects have none of the required fields.\<close>

definition hasOwnProperty :: "json \<Rightarrow> string \<Rightarrow> bool option" where
  "hasOwnProperty parsed field =
     (case parsed of
        JNull \<Rightarrow> None
      | JObject kvs \<Rightarrow>
          if ''hasOwnProperty'' \<in> set (map fst kvs) then None
          else Some (field \<in> set (map fst kvs))
      | _ \<Rightarrow> Some False)"

text \<open>\<^verbatim>\<open>fields.every(field => parsed.hasOwnProperty(field))\<close>: it stops at the first
  field that is absent.\<close>

fun every_hasOwnProperty :: "json \<Rightarrow> string list \<Rightarrow> bool option" where
  "every_hasOwnProperty parsed [] = Some True"
| "every_hasOwnProperty parsed (f # fs) =
     (case hasOwnProperty parsed f of
        None \<Rightarrow> None
      | Some b \<Rightarrow> if b then every_hasOwnProperty parsed fs else Some False)"

text \<open>\<^verbatim>\<open>/,(\s*[}\]])/g\<close>\<close>

definition trailing_comma_pattern :: "atom list" where
  "trailing_comma_pattern =
     [lit (CHR '',''), Atom js_space Star True,
      Atom (\<lambda>c. c = CHR ''}'' \<or> c = CHR '']'') One True]"

definition validPrompt :: "json \<Rightarrow> json" where
  "validPrompt parsed =
     JObject
       [(''context'', or_else (get_prop parsed ''context'') (JString ''No context provided'')),
        (''role'', or_else (get_prop parsed ''role'') (JString ''Expert assistant'')),
        (''task'', or_else (get_prop parsed ''task'') (JString ''Complete the requested task'')),
        (''constraints'', or_else (get_prop parsed ''constraints'') (JString ''Follow best practices'')),
        (''output'', or_else (get_prop parsed ''output'') (JString ''Provide appropriate output''))]"

text \<open>
  The brace extraction, which \<^verbatim>\<open>generateInitialPrompt\<close> and \<^verbatim>\<open>refinePrompt\<close> both
  contain, word for word but for the two texts they put into \<^verbatim>\<open>edits\<close>. \<open>None\<close> means
  that the guard on the two brace positions failed or that the inner \<^verbatim>\<open>try\<close> block threw,
  so that control reaches the code after it.
\<close>

definition brace_extraction :: "string \<Rightarrow> string \<Rightarrow> string \<Rightarrow> step_result option" where
  "brace_extraction okEdits fixedEdits content =
     (case indexOf (CHR ''{'') content of
        None \<Rightarrow> None
      | Some firstBrace \<Rightarrow>
          (case lastIndexOf (CHR ''}'') content of
             None \<Rightarrow> None
           | Some lastBrace \<Rightarrow>
               if lastBrace > firstBrace then
                 (case JSON_parse (rx_replace_group trailing_comma_pattern
                                     (slice firstBrace (lastBrace + 1) content)) of
                    None \<Rightarrow> None
                  | Some parsed \<Rightarrow>
                      (case every_hasOwnProperty parsed requiredFields of
                         None \<Rightarrow> None
                       | Some hasAllFields \<Rightarrow>
                           if hasAllFields then Some \<lparr>prompt = parsed, edits = Some okEdits\<rparr>
                           else Some \<lparr>prompt = validPrompt parsed, edits = Some fixedEdits\<rparr>))
               else None))"

subsection \<open>Field extraction (generateInitialPrompt only)\<close>

text \<open>The five patterns of \<^verbatim>\<open>extractField\<close>, all with the \<^verbatim>\<open>i\<close> flag:
  \<^verbatim>\<open>"F"\s*:\s*"([^"]*)"\<close>, \<^verbatim>\<open>'F'\s*:\s*'([^']*)'\<close>, \<^verbatim>\<open>F\s*:\s*"([^"]*)"\<close>,
  \<^verbatim>\<open>\*\*F\*\*:?\s*([^\n\*]+)\<close> and \<^verbatim>\<open>F:?\s*([^\n]+)\<close>.\<close>

definition field_patterns :: "string \<Rightarrow> atom list list" where
  "field_patterns fieldName =
     [[lit DQ] @ map lit_i fieldName @
        [lit DQ, Atom js_space Star False, lit (CHR '':''), Atom js_space Star False,
         lit DQ, Atom (\<lambda>c. c \<noteq> DQ) Star True, lit DQ],
      [lit SQ] @ map lit_i fieldName @
        [lit SQ, Atom js_space Star False, lit (CHR '':''), Atom js_space Star False,
         lit SQ, Atom (\<lambda>c. c \<noteq> SQ) Star True, lit SQ],
      map lit_i fieldName @
        [Atom js_space Star False, lit (CHR '':''), Atom js_space Star False,
         lit DQ, Atom (\<lambda>c. c \<noteq> DQ) Star True, lit DQ],
      [lit (CHR ''*''), lit (CHR ''*'')] @ map lit_i fieldName @
        [lit (CHR ''*''), lit (CHR ''*''), Atom (\<lambda>c. c = CHR '':'') Opt False,
         Atom js_space Star False, Atom (\<lambda>c. c \<noteq> LF \<and> c \<noteq> CHR ''*'') Plus True],
      map lit_i fieldName @
        [Atom (\<lambda>c. c = CHR '':'') Opt False, Atom js_space Star False,
         Atom (\<lambda>c. c \<noteq> LF) Plus True]]"

text \<open>The loop over the patterns: the first one that matches with a non-empty group
  decides, and its group is returned trimmed; \<open>None\<close> is \<^verbatim>\<open>null\<close>.\<close>

fun first_capture :: "atom list list \<Rightarrow> string \<Rightarrow> string option" where
  "first_capture [] content = None"
| "first_capture (pattern # patterns) content =
     (case rx_exec pattern content of
        None \<Rightarrow> first_capture patterns content
      | Some cap \<Rightarrow> if cap \<noteq> [] then Some (trim cap) else first_capture patterns content)"

definition extractField :: "string \<Rightarrow> string \<Rightarrow> string option" where
  "extractField content fieldName = first_capture (field_patterns fieldName) content"

text \<open>Truthiness of an extracted field, and \<^verbatim>\<open>field || fallback\<close>.\<close>

definition found :: "string option \<Rightarrow> bool" where
  "found f = (case f of None \<Rightarrow> False | Some s \<Rightarrow> s \<noteq> [])"

definition field_or :: "string option \<Rightarrow> string \<Rightarrow> json" where
  "field_or f fallback = JString (if found f then the f else fallback)"

definition generateInitialPrompt :: "backend_result \<Rightarrow> string \<Rightarrow> step_result" where
  "generateInitialPrompt response rawPrompt =
     (case response of
        Failure \<Rightarrow> no_result
      | Content content \<Rightarrow>
          (case JSON_parse content of
             Some parsed \<Rightarrow> \<lparr>prompt = parsed, edits = Some ''Initial prompt generation.''\<rparr>
           | None \<Rightarrow>
               (case brace_extraction ''Initial prompt generation.''
                       ''Initial prompt generation with field validation.'' content of
                  Some r \<Rightarrow> r
                | None \<Rightarrow>
                    (let context = extractField content ''context'';
                         role = extractField content ''role'';
                         task = extractField content ''task'';
                         constraints = extractField content ''constraints'';
                         output = extractField content ''output''
                     in if found context \<or> found role \<or> found task then
                          \<lparr>prompt = JObject
                             [(''context'', field_or context
                                 (''Context based on: '' @ substring0 200 rawPrompt @ ''...'')),
                              (''role'', field_or role
                                 ''Expert assistant specialized in the given domain''),
                              (''task'', field_or task
                                 ''Complete the task as described in the user's prompt''),
                              (''constraints'', field_or constraints
                                 ''Ensure accuracy, clarity, and adherence to best practices''),
                              (''output'', field_or output
                                 ''Deliver a comprehensive and well-structured response'')],
                           edits = Some ''Initial prompt generation with field extraction fallback.''\<rparr>
                        else
                          \<lparr>prompt = JObject
                             [(''context'', JString (''The user wants to: '' @ substring0 500 rawPrompt
                                 @ (if length rawPrompt > 500 then ''...'' else ''''))),
                              (''role'', JString
                                 ''Expert assistant with deep knowledge in the relevant domain''),
                              (''task'', JString
                                 (''1. Understand the user's requirements'' @ [LF]
                                  @ ''2. Provide a comprehensive solution'' @ [LF]
                                  @ ''3. Ensure clarity and completeness'')),
                              (''constraints'', JString
                                 (''- Be accurate and thorough'' @ [LF]
                                  @ ''- Follow best practices'' @ [LF]
                                  @ ''- Provide clear explanations'')),
                              (''output'', JString
                                 ''A well-structured response that fully addresses the user's needs'')],
                           edits = Some ''Initial prompt generation with automatic structuring.''\<rparr>))))"

text \<open>Decimal digits of a number, for the template string in \<^verbatim>\<open>refinePrompt\<close>.\<close>

function show_nat :: "nat \<Rightarrow> string" where
  "show_nat n =
     (if n < 10 then [char_of (48 + n)]
      else show_nat (n div 10) @ [char_of (48 + n mod 10)])"
  by pat_completeness auto
termination
  by (relation "measure id") auto

declare show_nat.simps [simp del]

definition refinePrompt :: "backend_result \<Rightarrow> nat \<Rightarrow> step_result" where
  "refinePrompt response iterationNum =
     (case response of
        Failure \<Rightarrow> no_result
      | Content content \<Rightarrow>
          (case JSON_parse content of
             Some refinedPromptJson \<Rightarrow>
               \<lparr>prompt = refinedPromptJson,
                edits = Some (''Refined prompt based on PE2 principles (Iteration ''
                              @ show_nat iterationNum @ '').'')\<rparr>
           | None \<Rightarrow>
               (case brace_extraction ''Refined prompt generation.''
                       ''Refined prompt generation with field validation.'' content of
                  Some r \<Rightarrow> r
                | None \<Rightarrow> no_result)))"


section \<open>The orchestrator: processPrompt\<close>







subsection \<open>After the loop: evaluation, document, files\<close>













subsection \<open>An example run\<close>














subsection \<open>The prompt schema\<close>

text \<open>\<^verbatim>\<open>PE2PromptSchema\<close> of the schema file: an object whose \<^verbatim>\<open>context\<close> and \<^verbatim>\<open>role\<close> are
  non-empty strings, whose \<^verbatim>\<open>task\<close> and \<^verbatim>\<open>constraints\<close> are a non-empty string or a
  non-empty array of non-empty strings, and whose \<^verbatim>\<open>output\<close> is a non-empty string or an
  object with at least one key.\<close>

definition nonempty_string :: "json option \<Rightarrow> bool" where
  "nonempty_string v = (case v of Some (JString s) \<Rightarrow> s \<noteq> [] | _ \<Rightarrow> False)"

definition nonempty_string_array :: "json option \<Rightarrow> bool" where
  "nonempty_string_array v =
     (case v of
        Some (JArray xs) \<Rightarrow> xs \<noteq> [] \<and> (\<forall>x \<in> set xs. nonempty_string (Some x))
      | _ \<Rightarrow> False)"

definition nonempty_record :: "json option \<Rightarrow> bool" where
  "nonempty_record v = (case v of Some (JObject kvs) \<Rightarrow> kvs \<noteq> [] | _ \<Rightarrow> False)"

definition PE2PromptSchema :: "json \<Rightarrow> bool" where
  "PE2PromptSchema v =
     (case v of
        JObject kvs \<Rightarrow>
          nonempty_string (get_prop v ''context'') \<and>
          nonempty_string (get_prop v ''role'') \<and>
          (nonempty_string (get_prop v ''task'') \<or> nonempty_string_array (get_prop v ''task'')) \<and>
          (nonempty_string (get_prop v ''constraints'')
             \<or> nonempty_string_array (get_prop v ''constraints'')) \<and>
          (nonempty_string (get_prop v ''output'') \<or> nonempty_record (get_prop v ''output''))
      | _ \<Rightarrow> False)"

subsection \<open>Example responses\<close>

text \<open>A response with one field in the bare \<^verbatim>\<open>key: value\<close> form, a response with no
  field at all, and a response whose object has a member named \<^verbatim>\<open>hasOwnProperty\<close>.\<close>

definition c4_content :: string where
  "c4_content = ''Role: guide''"

definition c4_content_none :: string where
  "c4_content_none = ''I cannot help with that.''"

definition c6_content :: string where
  \<open>c6_content = ''Sure: {"hasOwnProperty": 1, "role": "guide"}''\<close>

subsection \<open>Matches as a property\<close>


subsection \<open>A record with a comma and a brace inside a string\<close>



section \<open>Provider adapters\<close>

text \<open>
  The argument of \<^verbatim>\<open>chat.completions.create\<close>. The fields that the adapters validate
  keep what JavaScript allows there: \<^verbatim>\<open>model\<close> may be absent or any value, \<^verbatim>\<open>messages\<close>
  may be absent or a list, and role and content of a message are strings, possibly
  empty. The other fields have their declared types, \<open>None\<close> standing for
  \<^verbatim>\<open>undefined\<close>; numbers are rationals.
\<close>

record message =
  msg_role :: string
  msg_content :: string

record completion_opts =
  model :: "json option"
  messages :: "message list option"
  max_tokens :: "rat option"
  temperature :: "rat option"
  top_p :: "rat option"
  top_k :: "rat option"
  frequency_penalty :: "rat option"
  presence_penalty :: "rat option"
  stop :: "string list option"
  stop_sequences :: "string list option"
  stream :: bool
  user :: "string option"
  headers :: "(string \<times> string) list option"
  safety_settings :: "(string \<times> string) list option"

text \<open>What a failing backend call throws: an object with optional \<^verbatim>\<open>status\<close>,
  \<^verbatim>\<open>message\<close>, \<^verbatim>\<open>type\<close> and \<^verbatim>\<open>retry-after\<close> header.\<close>

record backend_error =
  err_status :: "int option"
  err_message :: "string option"
  err_type :: "string option"
  err_retry_after :: "string option"

text \<open>\<^verbatim>\<open>x || d\<close> on optional numbers and strings, \<^verbatim>\<open>Math.max(lo, Math.min(hi, x))\<close>, and
  \<^verbatim>\<open>xs.join(sep)\<close>.\<close>

definition num_or :: "rat option \<Rightarrow> rat \<Rightarrow> rat" where
  "num_or x d = (case x of None \<Rightarrow> d | Some n \<Rightarrow> if n \<noteq> 0 then n else d)"

definition str_or :: "string option \<Rightarrow> string \<Rightarrow> string" where
  "str_or x d = (case x of None \<Rightarrow> d | Some s \<Rightarrow> if s \<noteq> [] then s else d)"

definition clamp :: "rat \<Rightarrow> rat \<Rightarrow> rat \<Rightarrow> rat" where
  "clamp lo hi x = max lo (min hi x)"

fun join :: "string \<Rightarrow> string list \<Rightarrow> string" where
  "join sep [] = []"
| "join sep [x] = x"
| "join sep (x # y # ys) = x @ sep @ join sep (y # ys)"

subsection \<open>Validation\<close>

text \<open>
  The checks with which the OpenAI, OpenRouter, Anthropic and Google adapters begin;
  the four copies differ in the provider name of the first two messages only. The
  result is the message of the \<^verbatim>\<open>Error\<close> thrown, or \<open>None\<close> when all checks pass.
\<close>

definition is_nonempty_string :: "json option \<Rightarrow> bool" where
  "is_nonempty_string v = (case v of Some (JString s) \<Rightarrow> s \<noteq> [] | _ \<Rightarrow> False)"

fun validate_messages :: "message list \<Rightarrow> string option" where
  "validate_messages [] = None"
| "validate_messages (m # ms) =
     (if msg_role m = [] \<or> msg_role m \<notin> set [''system'', ''user'', ''assistant''] then
        Some (''Invalid message role: '' @ msg_role m
              @ ''. Must be 'system', 'user', or 'assistant'' @ [SQ])
      else if msg_content m = [] then Some ''Message content is required and must be a string''
      else validate_messages ms)"

definition validate :: "string \<Rightarrow> completion_opts \<Rightarrow> string option" where
  "validate provider opts =
     (if \<not> is_nonempty_string (model opts) then
        Some (provider @ '' model parameter is required and must be a string'')
      else
        (case messages opts of
           None \<Rightarrow> Some (provider @ '' messages parameter is required and must be a non-empty array'')
         | Some ms \<Rightarrow>
             if ms = [] then
               Some (provider @ '' messages parameter is required and must be a non-empty array'')
             else validate_messages ms))"

definition model_name :: "completion_opts \<Rightarrow> string" where
  "model_name opts = (case model opts of Some (JString s) \<Rightarrow> s | _ \<Rightarrow> [])"

definition messages_of :: "completion_opts \<Rightarrow> message list" where
  "messages_of opts = (case messages opts of Some ms \<Rightarrow> ms | None \<Rightarrow> [])"

text \<open>The two lists into which the Anthropic and the Google adapter split the messages.\<close>

definition systemMessages :: "completion_opts \<Rightarrow> message list" where
  "systemMessages opts = filter (\<lambda>m. msg_role m = ''system'') (messages_of opts)"

definition conversationMessages :: "completion_opts \<Rightarrow> message list" where
  "conversationMessages opts = filter (\<lambda>m. msg_role m \<noteq> ''system'') (messages_of opts)"

subsection \<open>The OpenAI adapter\<close>

text \<open>
  An adapter is a function of the backend it calls and of the options; it returns what
  \<^verbatim>\<open>create\<close> returns (\<open>Inr\<close>) or the message of the \<^verbatim>\<open>Error\<close> it throws (\<open>Inl\<close>), together
  with the list of the requests it has sent to the backend.
\<close>

record chat_request =
  req_model :: string
  req_messages :: "message list"
  req_max_tokens :: rat
  req_temperature :: rat
  req_top_p :: rat
  req_frequency_penalty :: rat
  req_presence_penalty :: rat
  req_stream :: bool
  req_stop :: "string list option"
  req_user :: "string option"
  req_headers :: "(string \<times> string) list option"

definition openai_error :: "backend_error \<Rightarrow> string \<Rightarrow> string" where
  "openai_error error model_id =
     (if err_status error = Some 401 then
        ''OpenAI authentication failed. Please check your API key.''
      else if err_status error = Some 429 then
        ''OpenAI rate limit exceeded. Please try again later.''
      else if err_status error = Some 400 then
        ''OpenAI request error: '' @ str_or (err_message error) ''Invalid request parameters''
      else if err_status error = Some 404 then
        ''OpenAI model not found: '' @ model_id @ ''. Please check the model name.''
      else if (case err_status error of Some st \<Rightarrow> st \<ge> 500 | None \<Rightarrow> False) then
        ''OpenAI server error. Please try again later.''
      else ''OpenAI API error: '' @ str_or (err_message error) ''Unknown error occurred'')"

definition openai_create ::
  "(chat_request \<Rightarrow> backend_error + 'r) \<Rightarrow> completion_opts \<Rightarrow> (string + 'r) \<times> chat_request list" where
  "openai_create originalCreate params =
     (case validate ''OpenAI'' params of
        Some msg \<Rightarrow> (Inl msg, [])
      | None \<Rightarrow>
          (let enhancedParams =
                 \<lparr>req_model = model_name params,
                  req_messages = messages_of params,
                  req_max_tokens = num_or (max_tokens params) 2048,
                  req_temperature =
                    (case temperature params of Some t \<Rightarrow> clamp 0 2 t | None \<Rightarrow> 7 / 10),
                  req_top_p = (case top_p params of Some p \<Rightarrow> clamp 0 1 p | None \<Rightarrow> 1),
                  req_frequency_penalty =
                    (case frequency_penalty params of Some f \<Rightarrow> clamp (- 2) 2 f | None \<Rightarrow> 0),
                  req_presence_penalty =
                    (case presence_penalty params of Some f \<Rightarrow> clamp (- 2) 2 f | None \<Rightarrow> 0),
                  req_stream = stream params,
                  req_stop = stop params,
                  req_user = (case user params of Some u \<Rightarrow> if u \<noteq> [] then Some u else None
                              | None \<Rightarrow> None),
                  req_headers = headers params\<rparr>
           in (case originalCreate enhancedParams of
                 Inr response \<Rightarrow> Inr response
               | Inl error \<Rightarrow> Inl (openai_error error (model_name params)),
               [enhancedParams])))"

subsection \<open>The OpenRouter adapter\<close>

text \<open>Up to the call of \<^verbatim>\<open>fetch\<close>. The argument \<open>exchange\<close> stands for the rest of the
  function: the call itself, the reading of the response and the mapping of errors.\<close>

definition openrouter_create ::
  "(chat_request \<Rightarrow> string + 'r) \<Rightarrow> completion_opts \<Rightarrow> (string + 'r) \<times> chat_request list" where
  "openrouter_create exchange options =
     (case validate ''OpenRouter'' options of
        Some msg \<Rightarrow> (Inl msg, [])
      | None \<Rightarrow>
          (let requestBody =
                 \<lparr>req_model = model_name options,
                  req_messages = messages_of options,
                  req_max_tokens = num_or (max_tokens options) 2048,
                  req_temperature =
                    (case temperature options of Some t \<Rightarrow> clamp 0 2 t | None \<Rightarrow> 7 / 10),
                  req_top_p = (case top_p options of Some p \<Rightarrow> clamp 0 1 p | None \<Rightarrow> 1),
                  req_frequency_penalty =
                    (case frequency_penalty options of Some f \<Rightarrow> clamp (- 2) 2 f | None \<Rightarrow> 0),
                  req_presence_penalty =
                    (case presence_penalty options of Some f \<Rightarrow> clamp (- 2) 2 f | None \<Rightarrow> 0),
                  req_stream = stream options,
                  req_stop = stop options,
                  req_user = (case user options of Some u \<Rightarrow> if u \<noteq> [] then Some u else None
                              | None \<Rightarrow> None),
                  req_headers = None\<rparr>
           in (exchange requestBody, [requestBody])))"

subsection \<open>The Anthropic adapter\<close>

record anthropic_params =
  an_model :: string
  an_messages :: "message list"
  an_max_tokens :: rat
  an_system :: "string option"
  an_temperature :: "rat option"
  an_top_p :: "rat option"
  an_stop_sequences :: "string list option"
  an_stream :: bool

text \<open>The response of the backend: \<^verbatim>\<open>content\<close> is an array of typed blocks, or a single
  object that may have a text, or something else; the other fields may be absent.\<close>

record content_block =
  block_type :: string
  block_text :: "string option"

datatype anthropic_content = Blocks "content_block list" | Single "string option" | Other

record anthropic_response =
  resp_content :: anthropic_content
  resp_stop_reason :: "string option"
  resp_usage :: "json option"
  resp_model :: "string option"

text \<open>What the adapter returns: one choice with an assistant message, usage and model.\<close>

record completion =
  out_content :: string
  out_role :: string
  out_finish_reason :: string
  out_usage :: json
  out_model :: string

definition zero_usage :: json where
  "zero_usage = JObject [(''prompt_tokens'', JNumber 0), (''completion_tokens'', JNumber 0),
                         (''total_tokens'', JNumber 0)]"

definition anthropic_text :: "anthropic_content \<Rightarrow> string" where
  "anthropic_text c =
     (case c of
        Blocks blocks \<Rightarrow>
          concat (map (\<lambda>block. str_or (block_text block) [])
                      (filter (\<lambda>block. block_type block = ''text'') blocks))
      | Single t \<Rightarrow> str_or t []
      | Other \<Rightarrow> [])"

definition anthropic_error :: "backend_error \<Rightarrow> string \<Rightarrow> string" where
  "anthropic_error error model_id =
     (if err_status error = Some 401 then
        ''Anthropic authentication failed. Please check your API key.''
      else if err_status error = Some 429 then
        (case err_retry_after error of
           Some retryAfter \<Rightarrow>
             if retryAfter \<noteq> [] then
               ''Anthropic rate limit exceeded. Retry after '' @ retryAfter @ '' seconds.''
             else ''Anthropic rate limit exceeded. Please try again later.''
         | None \<Rightarrow> ''Anthropic rate limit exceeded. Please try again later.'')
      else if err_status error = Some 400 then
        ''Anthropic request error: '' @ str_or (err_message error) ''Invalid request parameters''
      else if err_status error = Some 404 then
        ''Anthropic model not found: '' @ model_id @ ''. Please check the model name.''
      else if err_status error = Some 413 then
        ''Anthropic request too large. Please reduce the input size.''
      else if (case err_status error of Some st \<Rightarrow> st \<ge> 500 | None \<Rightarrow> False) then
        ''Anthropic server error. Please try again later.''
      else if err_type error = Some ''invalid_request_error'' then
        ''Anthropic invalid request: '' @ (case err_message error of Some m \<Rightarrow> m
                                           | None \<Rightarrow> ''undefined'')
      else if err_type error = Some ''authentication_error'' then
        ''Anthropic authentication error. Please verify your API key.''
      else ''Anthropic API error: '' @ str_or (err_message error) ''Unknown error occurred'')"

definition anthropic_create ::
  "(anthropic_params \<Rightarrow> backend_error + anthropic_response) \<Rightarrow> completion_opts
     \<Rightarrow> (string + completion) \<times> anthropic_params list" where
  "anthropic_create backend opts =
     (case validate ''Anthropic'' opts of
        Some msg \<Rightarrow> (Inl msg, [])
      | None \<Rightarrow>
          (if conversationMessages opts \<noteq> []
                \<and> msg_role (hd (conversationMessages opts)) \<noteq> ''user'' then
                (Inl ''Anthropic conversation must start with a user message'', [])
              else
                (let systemPrompt =
                       (if systemMessages opts \<noteq> []
                        then Some (join [LF, LF] (map msg_content (systemMessages opts)))
                        else None);
                     anthropicParams =
                       \<lparr>an_model = model_name opts,
                        an_messages = conversationMessages opts,
                        an_max_tokens = num_or (max_tokens opts) 2048,
                        an_system = (case systemPrompt of
                                       Some sp \<Rightarrow> if sp \<noteq> [] then Some sp else None
                                     | None \<Rightarrow> None),
                        an_temperature = map_option (clamp 0 1) (temperature opts),
                        an_top_p = map_option (clamp 0 1) (top_p opts),
                        an_stop_sequences = map_option (take 4) (stop_sequences opts),
                        an_stream = stream opts\<rparr>
                 in (case backend anthropicParams of
                       Inr response \<Rightarrow>
                         Inr \<lparr>out_content = anthropic_text (resp_content response),
                              out_role = ''assistant'',
                              out_finish_reason = str_or (resp_stop_reason response) ''stop'',
                              out_usage = (case resp_usage response of Some u \<Rightarrow> u
                                           | None \<Rightarrow> zero_usage),
                              out_model = str_or (resp_model response) (model_name opts)\<rparr>
                     | Inl error \<Rightarrow> Inl (anthropic_error error (model_name opts)),
                     [anthropicParams]))))"

subsection \<open>The Google adapter\<close>

text \<open>Up to the call of \<^verbatim>\<open>generateContent\<close> or \<^verbatim>\<open>sendMessage\<close>. The argument \<open>exchange\<close>
  stands for the rest of the function: the call itself, the reading of the response
  and the mapping of errors. Two requests are stopped before any call, and the handler
  of the function turns both into its generic error. With no message left after the
  system messages, reading \<^verbatim>\<open>contents[0].parts\<close> throws. With a history whose first turn
  is the model's, \<^verbatim>\<open>startChat\<close> of the library (\<^verbatim>\<open>@google/generative-ai\<close> 0.24) refuses
  the history; this is the only check of \<^verbatim>\<open>startChat\<close> that a history built here can
  fail, since every turn has the role \<^verbatim>\<open>user\<close> or \<^verbatim>\<open>model\<close> and one text part.\<close>

record generation_config =
  maxOutputTokens :: rat
  gc_temperature :: "rat option"
  topP :: "rat option"
  topK :: "rat option"
  stopSequences :: "string list option"

record google_request =
  g_model :: string
  g_generationConfig :: generation_config
  g_safetySettings :: "(string \<times> string) list"
  g_systemInstruction :: "string option"
  g_history :: "(string \<times> string) list"
  g_input :: string

definition defaultSafetySettings :: "(string \<times> string) list" where
  "defaultSafetySettings =
     [(''HARM_CATEGORY_HARASSMENT'', ''BLOCK_MEDIUM_AND_ABOVE''),
      (''HARM_CATEGORY_HATE_SPEECH'', ''BLOCK_MEDIUM_AND_ABOVE''),
      (''HARM_CATEGORY_SEXUALLY_EXPLICIT'', ''BLOCK_MEDIUM_AND_ABOVE''),
      (''HARM_CATEGORY_DANGEROUS_CONTENT'', ''BLOCK_MEDIUM_AND_ABOVE'')]"

definition gemini_turn :: "message \<Rightarrow> string \<times> string" where
  "gemini_turn m = (if msg_role m = ''assistant'' then ''model'' else ''user'', msg_content m)"

definition google_create ::
  "(google_request \<Rightarrow> string + 'r) \<Rightarrow> completion_opts \<Rightarrow> (string + 'r) \<times> google_request list" where
  "google_create exchange opts =
     (case validate ''Google'' opts of
        Some msg \<Rightarrow> (Inl msg, [])
      | None \<Rightarrow>
          (let systemInstruction =
                 (if systemMessages opts \<noteq> []
                  then Some (join [LF, LF] (map msg_content (systemMessages opts)))
                  else None);
               generationConfig =
                 \<lparr>maxOutputTokens = num_or (max_tokens opts) 2048,
                  gc_temperature = map_option (clamp 0 2) (temperature opts),
                  topP = map_option (clamp 0 1) (top_p opts),
                  topK = map_option (clamp 1 100) (top_k opts),
                  stopSequences = map_option (take 5) (stop_sequences opts)\<rparr>;
               safetySettings =
                 (case safety_settings opts of Some ss \<Rightarrow> ss | None \<Rightarrow> defaultSafetySettings)
           in if conversationMessages opts = [] then
                (Inl (''Google API error: Cannot read properties of undefined (reading 'parts')''),
                 [])
              else if butlast (conversationMessages opts) \<noteq> []
                      \<and> msg_role (hd (conversationMessages opts)) = ''assistant'' then
                (Inl (''Google API error: [GoogleGenerativeAI Error]: ''
                      @ ''First content should be with role 'user', got model''),
                 [])
              else
                (let request =
                       \<lparr>g_model = model_name opts,
                        g_generationConfig = generationConfig,
                        g_safetySettings = safetySettings,
                        g_systemInstruction =
                          (case systemInstruction of
                             Some si \<Rightarrow> if si \<noteq> [] then Some si else None
                           | None \<Rightarrow> None),
                        g_history = map gemini_turn (butlast (conversationMessages opts)),
                        g_input = msg_content (last (conversationMessages opts))\<rparr>
                 in (exchange request, [request]))))"

subsection \<open>The Ollama adapter\<close>

text \<open>The adapter for the local backend sends what it is given: model and messages go
  into the request body as they are. \<^verbatim>\<open>fetch\<close> rejects (\<open>Inl\<close>) or gives a response with
  a status and a body, which is JSON or not (\<open>Inl\<close>, the message of the error that
  \<^verbatim>\<open>res.json()\<close> throws).\<close>

record ollama_request =
  ol_model :: "json option"
  ol_messages :: "message list option"
  ol_stream :: bool
  ol_num_predict :: rat

record http_response =
  res_ok :: bool
  res_status :: nat
  res_statusText :: string
  res_json :: "string + json"

definition ollama_create ::
  "(ollama_request \<Rightarrow> string + http_response) \<Rightarrow> completion_opts
     \<Rightarrow> (string + json) \<times> ollama_request list" where
  "ollama_create fetch opts =
     (let request =
            \<lparr>ol_model = model opts,
             ol_messages = messages opts,
             ol_stream = stream opts,
             ol_num_predict = (case max_tokens opts of Some n \<Rightarrow> n | None \<Rightarrow> 2048)\<rparr>
      in (case fetch request of
            Inl rejection \<Rightarrow> Inl rejection
          | Inr res \<Rightarrow>
              if \<not> res_ok res then
                Inl (''Ollama request failed: '' @ show_nat (res_status res) @ '' ''
                     @ res_statusText res)
              else
                (case res_json res of
                   Inl syntax_error \<Rightarrow> Inl syntax_error
                 | Inr data \<Rightarrow>
                     (case get_prop data ''message'' of
                        None \<Rightarrow> Inr (JString [])
                      | Some msg \<Rightarrow>
                          (case get_prop msg ''content'' of
                             None \<Rightarrow> Inr (JString [])
                           | Some c \<Rightarrow> if c = JNull then Inr (JString []) else Inr c))),
          [request]))"

subsection \<open>Requests that must be refused\<close>

text \<open>The requests the validation is meant to refuse: the model is absent or not a
  non-empty string, the message list is absent or empty, or some message has a role
  outside the three allowed ones or an empty content.\<close>

definition bad_request :: "completion_opts \<Rightarrow> bool" where
  "bad_request opts =
     (\<not> is_nonempty_string (model opts) \<or>
      messages opts = None \<or> messages opts = Some [] \<or>
      (\<exists>m \<in> set (messages_of opts).
         msg_role m \<notin> {''system'', ''user'', ''assistant''} \<or> msg_content m = []))"

subsection \<open>Example requests and backends\<close>

definition base_opts :: completion_opts where
  "base_opts =
     \<lparr>model = Some (JString ''m1''), messages = Some [\<lparr>msg_role = ''user'', msg_content = ''hi''\<rparr>],
      max_tokens = None, temperature = None, top_p = None, top_k = None,
      frequency_penalty = None, presence_penalty = None, stop = None, stop_sequences = None,
      stream = False, user = None, headers = None, safety_settings = None\<rparr>"

definition c3_opts :: completion_opts where
  "c3_opts = base_opts\<lparr>model := None,
                         messages := Some [\<lparr>msg_role = ''tool'', msg_content = []\<rparr>]\<rparr>"

definition c9_opts :: completion_opts where
  "c9_opts = base_opts\<lparr>temperature := Some 5, top_p := Some (- 1)\<rparr>"

definition c8_opts :: completion_opts where
  "c8_opts = base_opts\<lparr>messages := Some [\<lparr>msg_role = ''system'', msg_content = ''Be brief.''\<rparr>,
                                            \<lparr>msg_role = ''user'', msg_content = ''hi''\<rparr>,
                                            \<lparr>msg_role = ''system'', msg_content = ''Use English.''\<rparr>],
                         stop_sequences := Some [''a'', ''b'', ''c'', ''d'', ''e'', ''f'']\<rparr>"

definition c8_backend :: "anthropic_params \<Rightarrow> backend_error + anthropic_response" where
  "c8_backend p =
     Inr \<lparr>resp_content = Blocks [\<lparr>block_type = ''text'', block_text = Some ''Hello''\<rparr>,
                                  \<lparr>block_type = ''tool_use'', block_text = Some ''skipped''\<rparr>,
                                  \<lparr>block_type = ''text'', block_text = Some '' there''\<rparr>],
          resp_stop_reason = None, resp_usage = None, resp_model = None\<rparr>"

definition accepting_backend :: "'q \<Rightarrow> 'e + unit" where
  "accepting_backend request = Inr ()"

definition offline_fetch :: "ollama_request \<Rightarrow> string + http_response" where
  "offline_fetch request = Inl ''fetch failed''"

definition c8_reject_opts :: completion_opts where
  "c8_reject_opts =
     base_opts\<lparr>messages := Some [\<lparr>msg_role = ''system'', msg_content = ''Be brief.''\<rparr>,
                                  \<lparr>msg_role = ''assistant'', msg_content = ''Hello''\<rparr>]\<rparr>"


section \<open>Verification\<close>

subsection \<open>Complexity analyzer\<close>

lemma split_ws_nonempty: "split_ws s \<noteq> []"
  by (induction s rule: split_ws.induct) (auto split: list.splits)

lemma length_split_ws_pad:
  "length (split_ws (pad n @ CHR ''x'' # t)) = n + length (split_ws (CHR ''x'' # t))"
proof (induction n)
  case 0
  show ?case by (simp add: pad_def)
next
  case (Suc n)
  have nx: "\<not> js_space (CHR ''x'')" and sp: "js_space (CHR '' '')"
    by (simp_all add: js_space_def)
  have hd: "\<And>u. dropWhile js_space (pad n @ CHR ''x'' # u) = pad n @ CHR ''x'' # u"
    using nx by (cases n) (simp_all add: pad_def)
  have "pad (Suc n) @ CHR ''x'' # t = CHR ''x'' # CHR '' '' # (pad n @ CHR ''x'' # t)"
    by (simp add: pad_def)
  then show ?case
    using Suc nx sp hd split_ws_nonempty[of "CHR '' '' # (pad n @ CHR ''x'' # t)"]
    by (simp split: list.splits)
qed

lemma toLowerCase_pad: "toLowerCase (pad n @ t) = pad n @ toLowerCase t"
proof -
  have "map lower_char (pad n) = pad n"
    by (induction n) (simp_all add: pad_def lower_char_def)
  then show ?thesis by (simp add: toLowerCase_def)
qed

lemma str_includes_pad:
  "pad_free kw \<Longrightarrow> str_includes (pad n @ CHR ''x'' # t) kw = str_includes (CHR ''x'' # t) kw"
proof (induction n)
  case 0
  show ?case by (simp add: pad_def)
next
  case (Suc n)
  obtain u where u: "pad n @ CHR ''x'' # t = CHR ''x'' # u"
    by (cases n) (simp_all add: pad_def)
  have e: "pad (Suc n) @ CHR ''x'' # t = CHR ''x'' # CHR '' '' # CHR ''x'' # u"
    using u by (simp add: pad_def)
  show ?case
    using Suc u unfolding e
    by (auto simp: pad_free_def split: list.splits)
qed

lemma filter_includes_pad:
  assumes "\<forall>kw \<in> set kws. pad_free kw"
  shows "filter (str_includes (toLowerCase (pad n @ CHR ''x'' # t))) kws
       = filter (str_includes (toLowerCase (CHR ''x'' # t))) kws"
proof -
  have lx: "toLowerCase (CHR ''x'' # t) = CHR ''x'' # toLowerCase t"
    by (simp add: toLowerCase_def lower_char_def)
  show ?thesis
    using assms by (intro filter_cong refl) (simp add: toLowerCase_pad lx str_includes_pad)
qed

lemma rx_match_lit_miss: "c \<noteq> l \<Longrightarrow> rx_match (lit l # re) (c # cs) = None"
  by (simp add: lit_def rx_try.simps)

lemma rx_exec_pad:
  "l \<noteq> CHR ''x'' \<Longrightarrow> l \<noteq> CHR '' '' \<Longrightarrow> rx_exec (lit l # re) (pad n @ t) = rx_exec (lit l # re) t"
  by (induction n) (simp_all add: pad_def rx_match_lit_miss)

lemma specialChars_pad: "specialChars (pad n @ t) = specialChars t"
proof -
  have "filter (\<lambda>c. c \<in> set '';{['') (pad n) = []"
    by (induction n) (simp_all add: pad_def)
  then show ?thesis by (simp add: specialChars_def)
qed

lemma c5_tail_values:
  "words c5_tail = 14" "techHits c5_tail = 5" "domainHits c5_tail = 0"
  "structuralHits c5_tail = 1" "logicHits c5_tail = 2" "specialChars c5_tail = 0"
  "rx_test numbered_list_pattern c5_tail"
  by code_simp+

lemma analyze_unfold:
  obtains s where
    "s = 0 + (if words raw > 400 then 4 else if words raw > 250 then 3
              else if words raw > 120 then 2 else if words raw > 60 then 1 else 0)
           + min (techHits raw) 4 + min (domainHits raw) 3
           + min (structuralHits raw) 4 + min (logicHits raw) 3
           + (if specialChars raw \<ge> 5 then 2 else if specialChars raw \<ge> 2 then 1 else 0)"
    and
    "analyzePromptComplexity raw =
       (if s \<le> 4 then \<lparr>difficulty = NOVICE, iterations = 1, score = s\<rparr>
        else if s \<le> 8 then \<lparr>difficulty = INTERMEDIATE, iterations = 2, score = s\<rparr>
        else if s \<le> 12 then \<lparr>difficulty = ADVANCED, iterations = 3, score = s\<rparr>
        else if s \<le> 16 then \<lparr>difficulty = EXPERT, iterations = 4, score = s\<rparr>
        else \<lparr>difficulty = MASTER, iterations = 5, score = s\<rparr>)"
proof -
  let ?s = "0 + (if words raw > 400 then 4 else if words raw > 250 then 3
              else if words raw > 120 then 2 else if words raw > 60 then 1 else (0::int))
           + min (techHits raw) 4 + min (domainHits raw) 3
           + min (structuralHits raw) 4 + min (logicHits raw) 3
           + (if specialChars raw \<ge> 5 then 2 else if specialChars raw \<ge> 2 then 1 else 0)"
  have "analyzePromptComplexity raw =
       (if ?s \<le> 4 then \<lparr>difficulty = NOVICE, iterations = 1, score = ?s\<rparr>
        else if ?s \<le> 8 then \<lparr>difficulty = INTERMEDIATE, iterations = 2, score = ?s\<rparr>
        else if ?s \<le> 12 then \<lparr>difficulty = ADVANCED, iterations = 3, score = ?s\<rparr>
        else if ?s \<le> 16 then \<lparr>difficulty = EXPERT, iterations = 4, score = ?s\<rparr>
        else \<lparr>difficulty = MASTER, iterations = 5, score = ?s\<rparr>)"
    unfolding analyzePromptComplexity_def Let_def by (rule refl)
  then show thesis by (rule that[OF refl])
qed

lemma hits_nonneg:
  "0 \<le> techHits raw" "0 \<le> domainHits raw" "0 \<le> structuralHits raw" "0 \<le> logicHits raw"
  "0 \<le> specialChars raw"
  by (simp_all add: techHits_def domainHits_def structuralHits_def logicHits_def specialChars_def)

lemma numbered_list_hit: "rx_test numbered_list_pattern raw \<Longrightarrow> 1 \<le> structuralHits raw"
  by (simp add: structuralHits_def structuralPatterns_def)

text \<open>
  Claim C2. For every input text the score of the complexity analyzer is a non-negative
  integer (and, the analyzer being a function, a deterministic one), and difficulty and
  iteration count follow from the score alone by the band table: 0 to 4 gives NOVICE with
  1 iteration, 5 to 8 INTERMEDIATE with 2, 9 to 12 ADVANCED with 3, 13 to 16 EXPERT with 4,
  17 or more MASTER with 5.
\<close>

theorem complexity_band_table:
  "0 \<le> score (analyzePromptComplexity raw) \<and>
   (score (analyzePromptComplexity raw) \<le> 4 \<longrightarrow>
      difficulty (analyzePromptComplexity raw) = NOVICE \<and> iterations (analyzePromptComplexity raw) = 1) \<and>
   (5 \<le> score (analyzePromptComplexity raw) \<and> score (analyzePromptComplexity raw) \<le> 8 \<longrightarrow>
      difficulty (analyzePromptComplexity raw) = INTERMEDIATE \<and> iterations (analyzePromptComplexity raw) = 2) \<and>
   (9 \<le> score (analyzePromptComplexity raw) \<and> score (analyzePromptComplexity raw) \<le> 12 \<longrightarrow>
      difficulty (analyzePromptComplexity raw) = ADVANCED \<and> iterations (analyzePromptComplexity raw) = 3) \<and>
   (13 \<le> score (analyzePromptComplexity raw) \<and> score (analyzePromptComplexity raw) \<le> 16 \<longrightarrow>
      difficulty (analyzePromptComplexity raw) = EXPERT \<and> iterations (analyzePromptComplexity raw) = 4) \<and>
   (17 \<le> score (analyzePromptComplexity raw) \<longrightarrow>
      difficulty (analyzePromptComplexity raw) = MASTER \<and> iterations (analyzePromptComplexity raw) = 5)"
proof -
  obtain s where s: "s = 0 + (if words raw > 400 then 4 else if words raw > 250 then 3
              else if words raw > 120 then 2 else if words raw > 60 then 1 else 0)
           + min (techHits raw) 4 + min (domainHits raw) 3
           + min (structuralHits raw) 4 + min (logicHits raw) 3
           + (if specialChars raw \<ge> 5 then 2 else if specialChars raw \<ge> 2 then 1 else 0)"
    and r: "analyzePromptComplexity raw =
       (if s \<le> 4 then \<lparr>difficulty = NOVICE, iterations = 1, score = s\<rparr>
        else if s \<le> 8 then \<lparr>difficulty = INTERMEDIATE, iterations = 2, score = s\<rparr>
        else if s \<le> 12 then \<lparr>difficulty = ADVANCED, iterations = 3, score = s\<rparr>
        else if s \<le> 16 then \<lparr>difficulty = EXPERT, iterations = 4, score = s\<rparr>
        else \<lparr>difficulty = MASTER, iterations = 5, score = s\<rparr>)"
    by (rule analyze_unfold)
  have "0 \<le> (if words raw > 400 then 4 else if words raw > 250 then 3
              else if words raw > 120 then 2 else if words raw > 60 then 1 else (0::int))"
    and "0 \<le> (if specialChars raw \<ge> 5 then 2 else if specialChars raw \<ge> 2 then 1 else (0::int))"
    by simp_all
  moreover have "0 \<le> min (techHits raw) 4" "0 \<le> min (domainHits raw) 3"
    "0 \<le> min (structuralHits raw) 4" "0 \<le> min (logicHits raw) 3"
    by (simp_all add: hits_nonneg)
  ultimately have "0 \<le> s" unfolding s by linarith
  then show ?thesis unfolding r by simp
qed

text \<open>The band table at a concrete input of score 6.\<close>

theorem complexity_band_table_witness:
  "score (analyzePromptComplexity ''Explain the api of this python sdk; then [list] {it}'') = 6 \<and>
   difficulty (analyzePromptComplexity ''Explain the api of this python sdk; then [list] {it}'') = INTERMEDIATE \<and>
   iterations (analyzePromptComplexity ''Explain the api of this python sdk; then [list] {it}'') = 2"
proof -
  have "score (analyzePromptComplexity ''Explain the api of this python sdk; then [list] {it}'') = 6"
    by code_simp
  then show ?thesis
    using complexity_band_table[of "''Explain the api of this python sdk; then [list] {it}''"]
    by simp
qed

text \<open>
  Claim C5, amended. An input of 500 words with 5 technical keyword hits, a numbered list
  and 2 logical connective hits scores at least 11 and at most 19, so it lands in one of
  the three highest bands (ADVANCED, EXPERT or MASTER, 3 to 5 iterations).
\<close>

theorem five_keyword_example_band:
  assumes "words raw = 500" and "techHits raw = 5"
    and "rx_test numbered_list_pattern raw" and "logicHits raw = 2"
  shows "11 \<le> score (analyzePromptComplexity raw) \<and> score (analyzePromptComplexity raw) \<le> 19 \<and>
         3 \<le> iterations (analyzePromptComplexity raw) \<and> iterations (analyzePromptComplexity raw) \<le> 5 \<and>
         difficulty (analyzePromptComplexity raw) \<in> {ADVANCED, EXPERT, MASTER}"
proof -
  obtain s where s: "s = 0 + (if words raw > 400 then 4 else if words raw > 250 then 3
              else if words raw > 120 then 2 else if words raw > 60 then 1 else 0)
           + min (techHits raw) 4 + min (domainHits raw) 3
           + min (structuralHits raw) 4 + min (logicHits raw) 3
           + (if specialChars raw \<ge> 5 then 2 else if specialChars raw \<ge> 2 then 1 else 0)"
    and r: "analyzePromptComplexity raw =
       (if s \<le> 4 then \<lparr>difficulty = NOVICE, iterations = 1, score = s\<rparr>
        else if s \<le> 8 then \<lparr>difficulty = INTERMEDIATE, iterations = 2, score = s\<rparr>
        else if s \<le> 12 then \<lparr>difficulty = ADVANCED, iterations = 3, score = s\<rparr>
        else if s \<le> 16 then \<lparr>difficulty = EXPERT, iterations = 4, score = s\<rparr>
        else \<lparr>difficulty = MASTER, iterations = 5, score = s\<rparr>)"
    by (rule analyze_unfold)
  have d: "0 \<le> min (domainHits raw) 3" "min (domainHits raw) 3 \<le> 3" by (simp_all add: hits_nonneg)
  have st: "1 \<le> min (structuralHits raw) 4" "min (structuralHits raw) 4 \<le> 4"
    using numbered_list_hit[OF assms(3)] by simp_all
  have p: "0 \<le> (if specialChars raw \<ge> 5 then 2 else if specialChars raw \<ge> 2 then 1 else (0::int))"
    "(if specialChars raw \<ge> 5 then 2 else if specialChars raw \<ge> 2 then 1 else (0::int)) \<le> 2"
    by simp_all
  have "s = 10 + min (domainHits raw) 3 + min (structuralHits raw) 4
            + (if specialChars raw \<ge> 5 then 2 else if specialChars raw \<ge> 2 then 1 else 0)"
    unfolding s using assms(1,2,4) by simp
  then have "11 \<le> s" "s \<le> 19" using d st p by linarith+
  then show ?thesis unfolding r by simp
qed

lemma c5_input_values:
  "words c5_input = 500" "techHits c5_input = 5" "domainHits c5_input = 0"
  "structuralHits c5_input = 1" "logicHits c5_input = 2" "specialChars c5_input = 0"
  "rx_test numbered_list_pattern c5_input"
proof -
  obtain t where t: "c5_tail = CHR ''x'' # t" by (simp add: c5_tail_def)
  have pf: "\<forall>kw \<in> set techKeywords. pad_free kw" "\<forall>kw \<in> set domainKeywords. pad_free kw"
    "\<forall>kw \<in> set logicWords. pad_free kw"
    by (simp_all add: techKeywords_def domainKeywords_def logicWords_def pad_free_def)
  show "words c5_input = 500"
    using c5_tail_values(1) length_split_ws_pad[of 486 t]
    by (simp add: words_def c5_input_def t)
  show "techHits c5_input = 5"
    using c5_tail_values(2) filter_includes_pad[OF pf(1), of 486 t]
    by (simp add: techHits_def c5_input_def t)
  show "domainHits c5_input = 0"
    using c5_tail_values(3) filter_includes_pad[OF pf(2), of 486 t]
    by (simp add: domainHits_def c5_input_def t)
  show "logicHits c5_input = 2"
    using c5_tail_values(5) filter_includes_pad[OF pf(3), of 486 t]
    by (simp add: logicHits_def c5_input_def t)
  show "specialChars c5_input = 0"
    using c5_tail_values(6) by (simp add: c5_input_def specialChars_pad)
  have rx: "\<And>pat. pat \<in> set structuralPatterns \<Longrightarrow> rx_test pat c5_input = rx_test pat c5_tail"
    by (auto simp: structuralPatterns_def numbered_list_pattern_def bullet_list_pattern_def
        code_fence_pattern_def heading_pattern_def rx_test_def c5_input_def rx_exec_pad LF_def)
  show "structuralHits c5_input = 1"
    using c5_tail_values(4) rx
    by (simp add: structuralHits_def cong: filter_cong)
  show "rx_test numbered_list_pattern c5_input"
    using c5_tail_values(7) rx by (simp add: structuralPatterns_def)
qed

text \<open>
  Claim C5 as stated fails: the input \<open>c5_input\<close> has 500 words, 5 technical keyword
  hits, a numbered list and 2 connective hits, and scores 11, which is ADVANCED with 3
  iterations, below the two highest bands.
\<close>

theorem five_keyword_example_counterexample:
  "words c5_input = 500 \<and> techHits c5_input = 5 \<and> rx_test numbered_list_pattern c5_input \<and>
   logicHits c5_input = 2 \<and>
   score (analyzePromptComplexity c5_input) = 11 \<and>
   difficulty (analyzePromptComplexity c5_input) = ADVANCED \<and>
   iterations (analyzePromptComplexity c5_input) = 3"
proof -
  obtain s where s: "s = 0 + (if words c5_input > 400 then 4 else if words c5_input > 250 then 3
              else if words c5_input > 120 then 2 else if words c5_input > 60 then 1 else 0)
           + min (techHits c5_input) 4 + min (domainHits c5_input) 3
           + min (structuralHits c5_input) 4 + min (logicHits c5_input) 3
           + (if specialChars c5_input \<ge> 5 then 2 else if specialChars c5_input \<ge> 2 then 1 else 0)"
    and r: "analyzePromptComplexity c5_input =
       (if s \<le> 4 then \<lparr>difficulty = NOVICE, iterations = 1, score = s\<rparr>
        else if s \<le> 8 then \<lparr>difficulty = INTERMEDIATE, iterations = 2, score = s\<rparr>
        else if s \<le> 12 then \<lparr>difficulty = ADVANCED, iterations = 3, score = s\<rparr>
        else if s \<le> 16 then \<lparr>difficulty = EXPERT, iterations = 4, score = s\<rparr>
        else \<lparr>difficulty = MASTER, iterations = 5, score = s\<rparr>)"
    by (rule analyze_unfold)
  have "s = 11" unfolding s by (simp add: c5_input_values)
  then show ?thesis unfolding r by (simp add: c5_input_values)
qed

text \<open>The amended statement at \<open>c5_input\<close>.\<close>

theorem five_keyword_example_band_witness:
  "words c5_input = 500 \<and> techHits c5_input = 5 \<and> rx_test numbered_list_pattern c5_input \<and>
   logicHits c5_input = 2 \<and>
   11 \<le> score (analyzePromptComplexity c5_input) \<and> score (analyzePromptComplexity c5_input) \<le> 19 \<and>
   3 \<le> iterations (analyzePromptComplexity c5_input) \<and> iterations (analyzePromptComplexity c5_input) \<le> 5 \<and>
   difficulty (analyzePromptComplexity c5_input) \<in> {ADVANCED, EXPERT, MASTER}"
  using five_keyword_example_band[OF c5_input_values(1) c5_input_values(2) c5_input_values(7)
      c5_input_values(5)]
  by (simp add: c5_input_values)

subsection \<open>Orchestrator\<close>








lemma refinePrompt_failure_cases:
  "\<not> truthy (prompt (refinePrompt Failure k))"
  "JSON_parse content = None \<Longrightarrow>
   brace_extraction ''Refined prompt generation.''
     ''Refined prompt generation with field validation.'' content = None \<Longrightarrow>
   \<not> truthy (prompt (refinePrompt (Content content) k))"
  by (simp_all add: refinePrompt_def no_result_def)








subsection \<open>Response parsing\<close>

lemma brace_extraction_None_iff:
  "brace_extraction a b content = None \<longleftrightarrow> brace_extraction a' b' content = None"
  by (simp add: brace_extraction_def split: option.splits)

lemma field_or_nonempty: "fallback \<noteq> [] \<Longrightarrow> nonempty_string (Some (field_or f fallback))"
  by (cases f) (auto simp: field_or_def found_def nonempty_string_def)

lemma field_or_found: "found f \<Longrightarrow> field_or f fallback = JString (the f)"
  by (simp add: field_or_def)

text \<open>
  Claim C4, amended. When the strict parse and the brace extraction both fail, the two
  callers differ. A refinement round has no further tier and returns null. The initial
  generation goes on to the field extraction and always returns a record that meets
  the prompt schema: if one of context, role and task was extracted as a non-empty text,
  every extracted field is kept and the others are filled from fixed templates (the one
  for context built from the first 200 characters of the raw prompt); if none of these
  three was extracted, a fixed record built from the first 500 characters of the raw
  prompt is returned, whatever was extracted for constraints and output.
\<close>

theorem recovery_tiers_by_function:
  assumes "JSON_parse content = None"
    and "brace_extraction okEdits fixedEdits content = None"
  shows "refinePrompt (Content content) iterationNum = \<lparr>prompt = JNull, edits = None\<rparr> \<and>
         PE2PromptSchema (prompt (generateInitialPrompt (Content content) rawPrompt)) \<and>
         (found (extractField content ''context'') \<or> found (extractField content ''role'')
            \<or> found (extractField content ''task'') \<longrightarrow>
            edits (generateInitialPrompt (Content content) rawPrompt)
              = Some ''Initial prompt generation with field extraction fallback.'' \<and>
            (\<forall>f \<in> set requiredFields. found (extractField content f) \<longrightarrow>
               get_prop (prompt (generateInitialPrompt (Content content) rawPrompt)) f
                 = Some (JString (the (extractField content f)))) \<and>
            (\<not> found (extractField content ''context'') \<longrightarrow>
               get_prop (prompt (generateInitialPrompt (Content content) rawPrompt)) ''context''
                 = Some (JString (''Context based on: '' @ take 200 rawPrompt @ ''...'')))) \<and>
         (\<not> (found (extractField content ''context'') \<or> found (extractField content ''role'')
              \<or> found (extractField content ''task'')) \<longrightarrow>
            edits (generateInitialPrompt (Content content) rawPrompt)
              = Some ''Initial prompt generation with automatic structuring.'' \<and>
            get_prop (prompt (generateInitialPrompt (Content content) rawPrompt)) ''context''
              = Some (JString (''The user wants to: '' @ take 500 rawPrompt
                               @ (if length rawPrompt > 500 then ''...'' else ''''))))"
proof -
  have b1: "brace_extraction ''Refined prompt generation.''
              ''Refined prompt generation with field validation.'' content = None"
    and b2: "brace_extraction ''Initial prompt generation.''
              ''Initial prompt generation with field validation.'' content = None"
    using assms(2) brace_extraction_None_iff by blast+
  have A: "refinePrompt (Content content) iterationNum = \<lparr>prompt = JNull, edits = None\<rparr>"
    by (simp add: refinePrompt_def assms(1) b1 no_result_def)
  show ?thesis
  proof (cases "found (extractField content ''context'') \<or> found (extractField content ''role'')
            \<or> found (extractField content ''task'')")
    case True
    have g: "generateInitialPrompt (Content content) rawPrompt =
      \<lparr>prompt = JObject
         [(''context'', field_or (extractField content ''context'')
             (''Context based on: '' @ substring0 200 rawPrompt @ ''...'')),
          (''role'', field_or (extractField content ''role'')
             ''Expert assistant specialized in the given domain''),
          (''task'', field_or (extractField content ''task'')
             ''Complete the task as described in the user's prompt''),
          (''constraints'', field_or (extractField content ''constraints'')
             ''Ensure accuracy, clarity, and adherence to best practices''),
          (''output'', field_or (extractField content ''output'')
             ''Deliver a comprehensive and well-structured response'')],
       edits = Some ''Initial prompt generation with field extraction fallback.''\<rparr>"
      using True by (simp add: generateInitialPrompt_def assms(1) b2 Let_def)
    have B: "PE2PromptSchema (prompt (generateInitialPrompt (Content content) rawPrompt))"
      unfolding g by (simp add: PE2PromptSchema_def field_or_nonempty)
    have C: "\<forall>f \<in> set requiredFields. found (extractField content f) \<longrightarrow>
               get_prop (prompt (generateInitialPrompt (Content content) rawPrompt)) f
                 = Some (JString (the (extractField content f)))"
      unfolding g by (simp add: requiredFields_def field_or_found)
    have D: "\<not> found (extractField content ''context'') \<longrightarrow>
               get_prop (prompt (generateInitialPrompt (Content content) rawPrompt)) ''context''
                 = Some (JString (''Context based on: '' @ take 200 rawPrompt @ ''...''))"
      unfolding g by (simp add: field_or_def substring0_def)
    show ?thesis using A B C D True by (simp add: g)
  next
    case False
    have g: "generateInitialPrompt (Content content) rawPrompt =
      \<lparr>prompt = JObject
         [(''context'', JString (''The user wants to: '' @ substring0 500 rawPrompt
             @ (if length rawPrompt > 500 then ''...'' else ''''))),
          (''role'', JString ''Expert assistant with deep knowledge in the relevant domain''),
          (''task'', JString
             (''1. Understand the user's requirements'' @ [LF]
              @ ''2. Provide a comprehensive solution'' @ [LF]
              @ ''3. Ensure clarity and completeness'')),
          (''constraints'', JString
             (''- Be accurate and thorough'' @ [LF]
              @ ''- Follow best practices'' @ [LF]
              @ ''- Provide clear explanations'')),
          (''output'', JString
             ''A well-structured response that fully addresses the user's needs'')],
       edits = Some ''Initial prompt generation with automatic structuring.''\<rparr>"
      using False by (simp add: generateInitialPrompt_def assms(1) b2 Let_def)
    have B: "PE2PromptSchema (prompt (generateInitialPrompt (Content content) rawPrompt))"
      unfolding g by (simp add: PE2PromptSchema_def nonempty_string_def)
    show ?thesis using A B False by (simp add: g substring0_def)
  qed
qed

text \<open>A field can only be extracted from a text that contains its name, in any
  letter case.\<close>

lemma rx_match_One:
  "rx_match (Atom p One g # rest) s =
     (case s of
        [] \<Rightarrow> None
      | x # xs \<Rightarrow>
          if p x then
            (case rx_match rest xs of
               None \<Rightarrow> None
             | Some (len, cap) \<Rightarrow> Some (Suc len, if g then x # cap else cap))
          else None)"
proof (cases s)
  case Nil
  then show ?thesis by (simp add: rx_try.simps)
next
  case (Cons x xs)
  show ?thesis
  proof (cases "p x")
    case True
    have z: "rx_try p One g rest (x # xs) 0 = None" by (simp add: rx_try.simps)
    show ?thesis
      unfolding Cons using True z
      by (simp add: rx_try.simps[of p One g rest "x # xs" "Suc 0"] split: option.splits)
  next
    case False
    then show ?thesis unfolding Cons by (simp add: rx_try.simps)
  qed
qed

lemma rx_match_One_Some:
  assumes "rx_match (Atom p One g # rest) s \<noteq> None"
  obtains x xs where "s = x # xs" and "p x" and "rx_match rest xs \<noteq> None"
  using assms unfolding rx_match_One
  by (cases s) (auto split: if_splits option.splits)

lemma rx_match_lit_i_prefix:
  "rx_match (map lit_i f @ rest) s \<noteq> None \<Longrightarrow> starts_with (toLowerCase s) (toLowerCase f)"
proof (induction f arbitrary: s)
  case Nil
  then show ?case by (simp add: toLowerCase_def)
next
  case (Cons c f)
  have "rx_match (Atom (\<lambda>x. lower_char x = lower_char c) One False # (map lit_i f @ rest)) s \<noteq> None"
    using Cons.prems unfolding list.map append_Cons lit_i_def[of c] .
  then obtain x xs where s: "s = x # xs" and x: "lower_char x = lower_char c"
    and r: "rx_match (map lit_i f @ rest) xs \<noteq> None"
    by (rule rx_match_One_Some)
  show ?case using Cons.IH[OF r] x by (simp add: s toLowerCase_def)
qed

lemma rx_match_lits_prefix:
  "rx_match (map lit pre @ map lit_i f @ rest) s \<noteq> None \<Longrightarrow>
   starts_with (toLowerCase (drop (length pre) s)) (toLowerCase f)"
proof (induction pre arbitrary: s)
  case Nil
  then show ?case using rx_match_lit_i_prefix by simp
next
  case (Cons a pre)
  have "rx_match (Atom (\<lambda>x. x = a) One False # (map lit pre @ map lit_i f @ rest)) s \<noteq> None"
    using Cons.prems unfolding list.map append_Cons lit_def[of a] .
  then obtain x xs where s: "s = x # xs"
    and r: "rx_match (map lit pre @ map lit_i f @ rest) xs \<noteq> None"
    by (rule rx_match_One_Some)
  show ?case using Cons.IH[OF r] by (simp add: s)
qed

lemma rx_exec_Some_drop:
  "rx_exec re s \<noteq> None \<Longrightarrow> \<exists>i. i \<le> length s \<and> rx_match re (drop i s) \<noteq> None"
proof (induction s)
  case Nil
  then show ?case by (cases "rx_match re []") auto
next
  case (Cons c cs)
  show ?case
  proof (cases "rx_match re (c # cs)")
    case None
    then have "rx_exec re cs \<noteq> None" using Cons.prems by simp
    then obtain i where "i \<le> length cs" "rx_match re (drop i cs) \<noteq> None"
      using Cons.IH by blast
    then show ?thesis by (intro exI[of _ "Suc i"]) simp
  next
    case (Some r)
    then show ?thesis by (intro exI[of _ 0]) simp
  qed
qed

lemma str_includes_drop: "i \<le> length s \<Longrightarrow> starts_with (drop i s) k \<Longrightarrow> str_includes s k"
proof (induction s arbitrary: i)
  case Nil
  then show ?case by (cases k) simp_all
next
  case (Cons c cs)
  then show ?case by (cases i) auto
qed

lemma rx_exec_needs_name:
  assumes "rx_exec (map lit pre @ map lit_i f @ rest) content \<noteq> None"
  shows "str_includes (toLowerCase content) (toLowerCase f)"
proof -
  obtain i where i: "i \<le> length content"
    and m: "rx_match (map lit pre @ map lit_i f @ rest) (drop i content) \<noteq> None"
    using rx_exec_Some_drop[OF assms] by blast
  have s: "starts_with (drop (length pre + i) (toLowerCase content)) (toLowerCase f)"
    using rx_match_lits_prefix[OF m] by (simp add: toLowerCase_def drop_map)
  show ?thesis
  proof (cases "length pre + i \<le> length content")
    case True
    then show ?thesis using s str_includes_drop[of "length pre + i" "toLowerCase content"]
      by (simp add: toLowerCase_def)
  next
    case False
    then have "drop (length pre + i) (toLowerCase content) = []" by (simp add: toLowerCase_def)
    then have "starts_with (drop (length content) (toLowerCase content)) (toLowerCase f)"
      using s by (simp add: toLowerCase_def)
    then show ?thesis using str_includes_drop[of "length content" "toLowerCase content"]
      by (simp add: toLowerCase_def)
  qed
qed

lemma field_patterns_shape:
  "pat \<in> set (field_patterns f) \<Longrightarrow> \<exists>pre rest. pat = map lit pre @ map lit_i f @ rest"
proof -
  assume "pat \<in> set (field_patterns f)"
  then consider
      (p1) rest where "pat = map lit [DQ] @ map lit_i f @ rest"
    | (p2) rest where "pat = map lit [SQ] @ map lit_i f @ rest"
    | (p3) rest where "pat = map lit [] @ map lit_i f @ rest"
    | (p4) rest where "pat = map lit [CHR ''*'', CHR ''*''] @ map lit_i f @ rest"
    by (auto simp: field_patterns_def)
  then show ?thesis by cases blast+
qed

lemma first_capture_None:
  "\<forall>pat \<in> set pats. rx_exec pat content = None \<Longrightarrow> first_capture pats content = None"
  by (induction pats) simp_all

lemma extractField_needs_name:
  assumes "\<not> str_includes (toLowerCase content) (toLowerCase fieldName)"
  shows "extractField content fieldName = None"
proof -
  have "\<forall>pat \<in> set (field_patterns fieldName). rx_exec pat content = None"
  proof
    fix pat assume "pat \<in> set (field_patterns fieldName)"
    then obtain pre rest where "pat = map lit pre @ map lit_i fieldName @ rest"
      using field_patterns_shape by blast
    then show "rx_exec pat content = None"
      using rx_exec_needs_name[of pre fieldName rest content] assms by blast
  qed
  then show ?thesis by (simp add: extractField_def first_capture_None)
qed

lemma c4_lowercase:
  "toLowerCase c4_content = ''role: guide''"
  "toLowerCase c4_content_none = ''i cannot help with that.''"
  "map toLowerCase requiredFields = requiredFields"
  by code_simp+

lemma c4_content_none_fields:
  "map (extractField c4_content_none) requiredFields = [None, None, None, None, None]"
proof -
  have "\<forall>f \<in> set requiredFields. \<not> str_includes ''i cannot help with that.'' f"
    by code_simp
  then have "\<forall>f \<in> set requiredFields. extractField c4_content_none f = None"
    using c4_lowercase(3)
    by (intro ballI extractField_needs_name) (auto simp: c4_lowercase(2) requiredFields_def)
  then show ?thesis by (simp add: requiredFields_def)
qed

lemma c4_content_fields:
  "extractField c4_content ''role'' = Some ''guide''"
  "extractField c4_content ''context'' = None"
proof -
  show "extractField c4_content ''role'' = Some ''guide''" by code_simp
  have "\<not> str_includes ''role: guide'' ''context''" by code_simp
  then show "extractField c4_content ''context'' = None"
    using c4_lowercase(3)
    by (intro extractField_needs_name) (simp add: c4_lowercase(1) requiredFields_def)
qed

lemma c4_unparsable:
  "JSON_parse c4_content = None"
  "brace_extraction okEdits fixedEdits c4_content = None"
  "JSON_parse c4_content_none = None"
  "brace_extraction okEdits fixedEdits c4_content_none = None"
proof -
  show "JSON_parse c4_content = None" "JSON_parse c4_content_none = None" by code_simp+
  have "indexOf (CHR ''{'') c4_content = None" "indexOf (CHR ''{'') c4_content_none = None"
    by code_simp+
  then show "brace_extraction okEdits fixedEdits c4_content = None"
    "brace_extraction okEdits fixedEdits c4_content_none = None"
    by (simp_all add: brace_extraction_def)
qed

text \<open>The amended statement at the response \<open>Role: guide\<close>.\<close>

theorem recovery_tiers_by_function_witness:
  "refinePrompt (Content c4_content) 2 = \<lparr>prompt = JNull, edits = None\<rparr> \<and>
   PE2PromptSchema (prompt (generateInitialPrompt (Content c4_content) ''Write a python function'')) \<and>
   get_prop (prompt (generateInitialPrompt (Content c4_content) ''Write a python function'')) ''role''
     = Some (JString ''guide'') \<and>
   get_prop (prompt (generateInitialPrompt (Content c4_content) ''Write a python function'')) ''context''
     = Some (JString ''Context based on: Write a python function...'')"
  using recovery_tiers_by_function[OF c4_unparsable(1) c4_unparsable(2),
      of 2 "''Write a python function''"]
  by (simp add: c4_content_fields found_def requiredFields_def)

text \<open>
  Claim C4 as stated fails twice. For the response \<open>Role: guide\<close> both first tiers fail
  and the role field is recoverable by the patterns, yet a refinement round returns
  null. For the response \<open>I cannot help with that.\<close> both first tiers fail and none of
  the five fields is recoverable, yet the initial generation returns a record, not
  null.
\<close>

theorem recovery_tiers_counterexample:
  "JSON_parse c4_content = None \<and>
   brace_extraction ''Refined prompt generation.''
     ''Refined prompt generation with field validation.'' c4_content = None \<and>
   extractField c4_content ''role'' = Some ''guide'' \<and>
   prompt (refinePrompt (Content c4_content) 2) = JNull \<and>
   JSON_parse c4_content_none = None \<and>
   brace_extraction ''Initial prompt generation.''
     ''Initial prompt generation with field validation.'' c4_content_none = None \<and>
   map (extractField c4_content_none) requiredFields = [None, None, None, None, None] \<and>
   prompt (generateInitialPrompt (Content c4_content_none) ''Write a python function'') \<noteq> JNull"
proof -
  have c: "prompt (refinePrompt (Content c4_content) 2) = JNull"
    by (simp add: refinePrompt_def c4_unparsable no_result_def)
  have d: "prompt (generateInitialPrompt (Content c4_content_none) ''Write a python function'') \<noteq> JNull"
    using c4_content_none_fields
    by (simp add: generateInitialPrompt_def c4_unparsable Let_def requiredFields_def found_def)
  show ?thesis
    using c d c4_unparsable c4_content_fields(1) c4_content_none_fields by simp
qed

text \<open>The brace extraction on an object that lacks some required field and has no
  member named \<^verbatim>\<open>hasOwnProperty\<close>: the result is accepted, and every missing field holds
  its placeholder.\<close>

lemma every_hasOwnProperty_unshadowed:
  "''hasOwnProperty'' \<notin> fst ` set kvs \<Longrightarrow>
   every_hasOwnProperty (JObject kvs) fs = Some (set fs \<subseteq> fst ` set kvs)"
  by (induction fs) (auto simp: hasOwnProperty_def)

lemma get_prop_absent: "k \<notin> fst ` set kvs \<Longrightarrow> get_prop (JObject kvs) k = None"
  by (simp add: map_of_eq_None_iff)

lemma brace_extraction_fills_missing:
  assumes "indexOf (CHR ''{'') content = Some firstBrace"
    and "lastIndexOf (CHR ''}'') content = Some lastBrace"
    and "firstBrace < lastBrace"
    and "JSON_parse (rx_replace_group trailing_comma_pattern
                       (slice firstBrace (lastBrace + 1) content)) = Some (JObject kvs)"
    and "''hasOwnProperty'' \<notin> fst ` set kvs"
    and "\<not> set requiredFields \<subseteq> fst ` set kvs"
  shows "brace_extraction okEdits fixedEdits content
           = Some \<lparr>prompt = validPrompt (JObject kvs), edits = Some fixedEdits\<rparr> \<and>
         truthy (validPrompt (JObject kvs)) \<and>
         (''context'' \<notin> fst ` set kvs \<longrightarrow>
            get_prop (validPrompt (JObject kvs)) ''context'' = Some (JString ''No context provided'')) \<and>
         (''role'' \<notin> fst ` set kvs \<longrightarrow>
            get_prop (validPrompt (JObject kvs)) ''role'' = Some (JString ''Expert assistant'')) \<and>
         (''task'' \<notin> fst ` set kvs \<longrightarrow>
            get_prop (validPrompt (JObject kvs)) ''task'' = Some (JString ''Complete the requested task'')) \<and>
         (''constraints'' \<notin> fst ` set kvs \<longrightarrow>
            get_prop (validPrompt (JObject kvs)) ''constraints'' = Some (JString ''Follow best practices'')) \<and>
         (''output'' \<notin> fst ` set kvs \<longrightarrow>
            get_prop (validPrompt (JObject kvs)) ''output'' = Some (JString ''Provide appropriate output''))"
proof -
  have e: "every_hasOwnProperty (JObject kvs) requiredFields = Some False"
    using assms(5,6) by (simp add: every_hasOwnProperty_unshadowed)
  have "brace_extraction okEdits fixedEdits content
           = Some \<lparr>prompt = validPrompt (JObject kvs), edits = Some fixedEdits\<rparr>"
    using assms(1-4) e by (simp add: brace_extraction_def)
  moreover have "truthy (validPrompt (JObject kvs))" by (simp add: validPrompt_def)
  moreover have "\<And>k d. k \<notin> fst ` set kvs \<Longrightarrow> or_else (get_prop (JObject kvs) k) d = d"
    using get_prop_absent[of _ kvs] by (simp add: or_else_def del: get_prop.simps)
  ultimately show ?thesis unfolding validPrompt_def by simp
qed

text \<open>
  Claim C6 fails on the code at the response \<open>c6_content\<close>: the strict parse fails, the
  text between the first opening and the last closing brace parses to an object that
  lacks four of the five required fields, but the object has a member named
  \<^verbatim>\<open>hasOwnProperty\<close>, so the call \<^verbatim>\<open>parsed.hasOwnProperty(field)\<close> throws, the brace
  extraction is abandoned, and \<^verbatim>\<open>refinePrompt\<close> returns null instead of the record with
  placeholders.
\<close>

theorem shadowed_hasOwnProperty_defeats_extraction:
  "JSON_parse c6_content = None \<and>
   indexOf (CHR ''{'') c6_content = Some 6 \<and>
   lastIndexOf (CHR ''}'') c6_content = Some 43 \<and>
   JSON_parse (rx_replace_group trailing_comma_pattern (slice 6 (43 + 1) c6_content))
     = Some (JObject [(''hasOwnProperty'', JNumber 1), (''role'', JString ''guide'')]) \<and>
   brace_extraction ''Refined prompt generation.''
     ''Refined prompt generation with field validation.'' c6_content = None \<and>
   refinePrompt (Content c6_content) 2 = \<lparr>prompt = JNull, edits = None\<rparr>"
proof -
  have a: "JSON_parse c6_content = None"
    "indexOf (CHR ''{'') c6_content = Some 6"
    "lastIndexOf (CHR ''}'') c6_content = Some 43"
    "JSON_parse (rx_replace_group trailing_comma_pattern (slice 6 (43 + 1) c6_content))
       = Some (JObject [(''hasOwnProperty'', JNumber 1), (''role'', JString ''guide'')])"
    by code_simp+
  have b: "brace_extraction ''Refined prompt generation.''
     ''Refined prompt generation with field validation.'' c6_content = None"
    using a by (simp add: brace_extraction_def hasOwnProperty_def requiredFields_def)
  show ?thesis using a b by (simp add: refinePrompt_def no_result_def)
qed

subsection \<open>What the parser consumes\<close>

text \<open>Every parsing function returns a suffix of its input, and an object starts
  with an opening brace and ends with the closing brace just before the rest.\<close>

lemma suffix_skip_ws: "suffix (skip_ws s) s"
  by (simp add: skip_ws_def suffix_dropWhile)

lemma suffix_Cons5: "suffix r (a # b # c # d # e # r)"
  by (intro suffix_ConsI) simp

lemma parse_chars_suffix: "parse_chars cs = Some (str, r) \<Longrightarrow> suffix r cs"
proof (induction "length cs" arbitrary: cs str r rule: less_induct)
  case less
  have IH: "\<And>r' str'. suffix r' cs \<Longrightarrow> r' \<noteq> cs \<Longrightarrow> parse_chars r' = Some (str', r) \<Longrightarrow> suffix r cs"
  proof -
    fix r' str' assume a: "suffix r' cs" "r' \<noteq> cs" "parse_chars r' = Some (str', r)"
    have "length r' < length cs"
      using a(1,2) by (metis suffix_length_le le_neq_implies_less suffix_order.eq_iff
          suffix_def append_eq_append_conv append_Nil)
    then have "suffix r r'" using less.hyps a(3) by blast
    then show "suffix r cs" using a(1) by (meson suffix_order.trans)
  qed
  show ?case
  proof (cases cs)
    case Nil
    then show ?thesis using less.prems by simp
  next
    case (Cons c cs')
    show ?thesis
    proof (cases "c = DQ")
      case True
      then show ?thesis using less.prems unfolding Cons by (auto simp: suffix_ConsI)
    next
      case nq: False
      show ?thesis
      proof (cases "c = BSL")
        case True
        show ?thesis
        proof (cases cs')
          case Nil
          then show ?thesis using less.prems nq True unfolding Cons by simp
        next
          case e: (Cons e r0)
          show ?thesis
          proof (cases "e = CHR ''u''")
            case u: True
            then obtain h1 h2 h3 h4 r' n str' where
              r0: "r0 = h1 # h2 # h3 # h4 # r'" and p: "parse_chars r' = Some (str', r)"
              using less.prems nq True unfolding Cons e
              by (auto split: list.splits option.splits)
            have "suffix r' cs" unfolding Cons e r0 by (intro suffix_ConsI) simp
            moreover have "r' \<noteq> cs" unfolding Cons e r0 by simp
            ultimately show ?thesis using IH p by blast
          next
            case nu: False
            then obtain str' where p: "parse_chars r0 = Some (str', r)"
              using less.prems nq True unfolding Cons e
              by (auto split: list.splits option.splits)
            have "suffix r0 cs" unfolding Cons e by (intro suffix_ConsI) simp
            moreover have "r0 \<noteq> cs" unfolding Cons e by simp
            ultimately show ?thesis using IH p by blast
          qed
        qed
      next
        case nb: False
        then obtain str' where p: "parse_chars cs' = Some (str', r)"
          using less.prems nq unfolding Cons by (auto split: if_splits option.splits)
        have "suffix cs' cs" unfolding Cons by (intro suffix_ConsI) simp
        moreover have "cs' \<noteq> cs" unfolding Cons by simp
        ultimately show ?thesis using IH p by blast
      qed
    qed
  qed
qed

lemma parse_number_suffix: "parse_number s = Some (q, r) \<Longrightarrow> suffix r s"
proof -
  have ip: "\<And>s ds r. parse_int_part s = Some (ds, r) \<Longrightarrow> suffix r s"
    by (auto simp: parse_int_part_def suffix_ConsI suffix_dropWhile split: list.splits if_splits)
  have fp: "\<And>s ds r. parse_frac_part s = Some (ds, r) \<Longrightarrow> suffix r s"
    by (auto simp: parse_frac_part_def suffix_ConsI suffix_dropWhile split: list.splits if_splits)
  have ed: "\<And>sg s e r. parse_exp_digits sg s = Some (e, r) \<Longrightarrow> suffix r s"
    by (auto simp: parse_exp_digits_def suffix_dropWhile split: if_splits)
  have ep: "\<And>s e r. parse_exp_part s = Some (e, r) \<Longrightarrow> suffix r s"
    by (auto simp: parse_exp_part_def split: list.splits if_splits
        dest!: ed intro: suffix_ConsI)
  have un: "\<And>s q r. parse_unsigned s = Some (q, r) \<Longrightarrow> suffix r s"
  proof -
    fix s q r assume "parse_unsigned s = Some (q, r)"
    then obtain r1 r2 d1 d2 e where "parse_int_part s = Some (d1, r1)"
      "parse_frac_part r1 = Some (d2, r2)" "parse_exp_part r2 = Some (e, r)"
      by (auto simp: parse_unsigned_def split: option.splits)
    then have "suffix r1 s" "suffix r2 r1" "suffix r r2" using ip fp ep by blast+
    then show "suffix r s" by (meson suffix_order.trans)
  qed
  assume "parse_number s = Some (q, r)"
  then show ?thesis
    by (auto simp: parse_number_def split: list.splits if_splits option.splits
        dest!: un intro: suffix_ConsI)
qed

lemma parse_value_SucE:
  assumes "parse_value (Suc n) s = Some (v, r)"
  obtains (empty_object) cs where "s = CHR ''{'' # cs" "skip_ws cs = CHR ''}'' # r" "v = JObject []"
  | (object) cs d r0 kvs where "s = CHR ''{'' # cs" "skip_ws cs = d # r0"
      "parse_members n (d # r0) = Some (kvs, r)" "v = JObject kvs"
  | (empty_array) cs where "s = CHR ''['' # cs" "skip_ws cs = CHR '']'' # r" "v = JArray []"
  | (array) cs d r0 vs where "s = CHR ''['' # cs" "skip_ws cs = d # r0"
      "parse_elements n (d # r0) = Some (vs, r)" "v = JArray vs"
  | (string) cs str where "s = DQ # cs" "parse_chars cs = Some (str, r)" "v = JString str"
  | (literal) k where "r = drop k s" "\<forall>kvs. v \<noteq> JObject kvs"
  | (number) q where "parse_number s = Some (q, r)" "v = JNumber q"
proof (cases s)
  case Nil
  then show ?thesis using assms by simp
next
  case (Cons c cs)
  show ?thesis
  proof (cases "c = CHR ''{''")
    case True
    then show ?thesis
      using assms empty_object object unfolding Cons
      by (auto split: list.splits if_splits option.splits)
  next
    case nb: False
    show ?thesis
    proof (cases "c = CHR ''[''")
      case True
      then show ?thesis
        using assms empty_array array unfolding Cons
        by (auto split: list.splits if_splits option.splits)
    next
      case nk: False
      show ?thesis
      proof (cases "c = DQ")
        case True
        then show ?thesis
          using assms string unfolding Cons
          by (auto simp: DQ_def split: option.splits)
      next
        case nq: False
        have e: "parse_value (Suc n) s =
          (if starts_with s ''true'' then Some (JBool True, drop 4 s)
           else if starts_with s ''false'' then Some (JBool False, drop 5 s)
           else if starts_with s ''null'' then Some (JNull, drop 4 s)
           else (case parse_number s of
                  None \<Rightarrow> None
                | Some (q, rest) \<Rightarrow> Some (JNumber q, rest)))"
          using nb nk nq unfolding Cons by (simp del: starts_with.simps)
        show ?thesis
          using assms literal number unfolding e
          by (auto split: if_splits option.splits)
      qed
    qed
  qed
qed

lemma parse_elements_SucE:
  assumes "parse_elements (Suc n) s = Some (vs, r)"
  obtains v r1 d r' where "parse_value n s = Some (v, r1)" "skip_ws r1 = d # r'"
    "(d = CHR '']'' \<and> vs = [v] \<and> r = r') \<or>
     (d = CHR '','' \<and> (\<exists>vs'. parse_elements n (skip_ws r') = Some (vs', r) \<and> vs = v # vs'))"
  using assms by (auto split: list.splits if_splits option.splits)

lemma parse_members_SucE:
  assumes "parse_members (Suc n) s = Some (kvs, r)"
  obtains cs k r0 r1 v r2 e r3 where "s = DQ # cs" "parse_chars cs = Some (k, r0)"
    "skip_ws r0 = CHR '':'' # r1" "parse_value n (skip_ws r1) = Some (v, r2)"
    "skip_ws r2 = e # r3"
    "(e = CHR ''}'' \<and> kvs = [(k, v)] \<and> r = r3) \<or>
     (e = CHR '','' \<and> (\<exists>kvs'. parse_members n (skip_ws r3) = Some (kvs', r) \<and> kvs = (k, v) # kvs'))"
  using assms by (auto split: list.splits if_splits option.splits)

lemma skip_ws_Cons_suffix: "skip_ws s = d # r \<Longrightarrow> suffix (d # r) s \<and> suffix r s"
  using suffix_skip_ws[of s] by (auto dest: suffix_ConsD)

lemma parse_suffix:
  "(parse_value n s = Some (v, r) \<longrightarrow> suffix r s) \<and>
   (parse_elements n s = Some (vs, r) \<longrightarrow> suffix r s) \<and>
   (parse_members n s = Some (kvs, r) \<longrightarrow> suffix r s)"
proof (induction n arbitrary: s v r vs kvs)
  case 0
  show ?case by simp
next
  case (Suc n)
  have IHv: "\<And>s v r. parse_value n s = Some (v, r) \<Longrightarrow> suffix r s"
    and IHe: "\<And>s vs r. parse_elements n s = Some (vs, r) \<Longrightarrow> suffix r s"
    and IHm: "\<And>s kvs r. parse_members n s = Some (kvs, r) \<Longrightarrow> suffix r s"
    using Suc.IH by blast+
  have V: "suffix r s" if a: "parse_value (Suc n) s = Some (v, r)"
    using a
  proof (cases rule: parse_value_SucE)
    case (empty_object cs)
    then show ?thesis using skip_ws_Cons_suffix[of cs] by (auto intro: suffix_ConsI)
  next
    case (object cs d r0 kvs)
    have "suffix r (d # r0)" using IHm object(3) by blast
    then show ?thesis
      using skip_ws_Cons_suffix[of cs d r0] object(1,2)
      by (meson suffix_ConsI suffix_order.trans)
  next
    case (empty_array cs)
    then show ?thesis using skip_ws_Cons_suffix[of cs] by (auto intro: suffix_ConsI)
  next
    case (array cs d r0 vs)
    have "suffix r (d # r0)" using IHe array(3) by blast
    then show ?thesis
      using skip_ws_Cons_suffix[of cs d r0] array(1,2)
      by (meson suffix_ConsI suffix_order.trans)
  next
    case (string cs str)
    then show ?thesis using parse_chars_suffix[of cs str r] by (auto intro: suffix_ConsI)
  next
    case (literal k)
    then show ?thesis by (simp add: suffix_drop)
  next
    case (number q)
    then show ?thesis by (simp add: parse_number_suffix)
  qed
  have E: "suffix r s" if a: "parse_elements (Suc n) s = Some (vs, r)"
  proof -
    obtain v r1 d r' where b: "parse_value n s = Some (v, r1)" "skip_ws r1 = d # r'"
      "(d = CHR '']'' \<and> vs = [v] \<and> r = r') \<or>
       (d = CHR '','' \<and> (\<exists>vs'. parse_elements n (skip_ws r') = Some (vs', r) \<and> vs = v # vs'))"
      using a by (rule parse_elements_SucE)
    have s1: "suffix r' s"
      using IHv[OF b(1)] skip_ws_Cons_suffix[OF b(2)] by (meson suffix_order.trans)
    from b(3) show ?thesis
    proof
      assume "d = CHR '']'' \<and> vs = [v] \<and> r = r'"
      then show ?thesis using s1 by simp
    next
      assume "d = CHR '','' \<and> (\<exists>vs'. parse_elements n (skip_ws r') = Some (vs', r) \<and> vs = v # vs')"
      then obtain vs' where "parse_elements n (skip_ws r') = Some (vs', r)" by blast
      then have "suffix r (skip_ws r')" using IHe by blast
      then show ?thesis using s1 suffix_skip_ws[of r'] by (meson suffix_order.trans)
    qed
  qed
  have M: "suffix r s" if a: "parse_members (Suc n) s = Some (kvs, r)"
  proof -
    obtain cs k r0 r1 v r2 e r3 where b: "s = DQ # cs" "parse_chars cs = Some (k, r0)"
      "skip_ws r0 = CHR '':'' # r1" "parse_value n (skip_ws r1) = Some (v, r2)"
      "skip_ws r2 = e # r3"
      "(e = CHR ''}'' \<and> kvs = [(k, v)] \<and> r = r3) \<or>
       (e = CHR '','' \<and> (\<exists>kvs'. parse_members n (skip_ws r3) = Some (kvs', r) \<and> kvs = (k, v) # kvs'))"
      using a by (rule parse_members_SucE)
    have "suffix r0 s" using parse_chars_suffix[OF b(2)] b(1) by (simp add: suffix_ConsI)
    then have "suffix r1 s" using skip_ws_Cons_suffix[OF b(3)] by (meson suffix_order.trans)
    then have "suffix r2 s"
      using IHv[OF b(4)] suffix_skip_ws[of r1] by (meson suffix_order.trans)
    then have s3: "suffix r3 s" using skip_ws_Cons_suffix[OF b(5)] by (meson suffix_order.trans)
    from b(6) show ?thesis
    proof
      assume "e = CHR ''}'' \<and> kvs = [(k, v)] \<and> r = r3"
      then show ?thesis using s3 by simp
    next
      assume "e = CHR '','' \<and> (\<exists>kvs'. parse_members n (skip_ws r3) = Some (kvs', r) \<and> kvs = (k, v) # kvs')"
      then obtain kvs' where "parse_members n (skip_ws r3) = Some (kvs', r)" by blast
      then have "suffix r (skip_ws r3)" using IHm by blast
      then show ?thesis using s3 suffix_skip_ws[of r3] by (meson suffix_order.trans)
    qed
  qed
  show ?case using V E M by blast
qed

lemma parse_value_suffix: "parse_value n s = Some (v, r) \<Longrightarrow> suffix r s"
  using parse_suffix by blast

text \<open>
  The bound on nested calls is never the reason for a failure: from \<open>2 * length s + 1\<close>
  units on, more units change nothing, so \<open>JSON_parse\<close> answers as the unbounded
  recursive descent does.
\<close>

lemma skip_ws_length: "length (skip_ws s) \<le> length s"
  by (simp add: skip_ws_def length_dropWhile_le)

lemma skip_ws_Cons_length: "skip_ws s = d # r \<Longrightarrow> length r < length s"
  using skip_ws_length[of s] by simp

lemma parse_chars_length: "parse_chars cs = Some (str, r) \<Longrightarrow> length r \<le> length cs"
  by (auto dest: parse_chars_suffix suffix_length_le)

lemma parse_value_length: "parse_value n s = Some (v, r) \<Longrightarrow> length r \<le> length s"
  by (auto dest: parse_value_suffix suffix_length_le)

lemma parse_fuel:
  "(2 * length s + 1 \<le> n \<longrightarrow> parse_value (n + k) s = parse_value n s) \<and>
   (2 * length s + 2 \<le> n \<longrightarrow> parse_elements (n + k) s = parse_elements n s) \<and>
   (2 * length s + 2 \<le> n \<longrightarrow> parse_members (n + k) s = parse_members n s)"
proof (induction n arbitrary: s)
  case 0
  show ?case by simp
next
  case (Suc n)
  have IHv: "\<And>x. 2 * length x + 1 \<le> n \<Longrightarrow> parse_value (n + k) x = parse_value n x"
    and IHe: "\<And>x. 2 * length x + 2 \<le> n \<Longrightarrow> parse_elements (n + k) x = parse_elements n x"
    and IHm: "\<And>x. 2 * length x + 2 \<le> n \<Longrightarrow> parse_members (n + k) x = parse_members n x"
    using Suc.IH by blast+
  have V: "parse_value (Suc n + k) s = parse_value (Suc n) s" if b: "2 * length s + 1 \<le> Suc n"
  proof (cases s)
    case Nil
    then show ?thesis by simp
  next
    case (Cons c cs)
    have sub: "\<And>d r0. skip_ws cs = d # r0 \<Longrightarrow>
        parse_members (n + k) (d # r0) = parse_members n (d # r0) \<and>
        parse_elements (n + k) (d # r0) = parse_elements n (d # r0)"
    proof -
      fix d r0 assume "skip_ws cs = d # r0"
      then have "length (d # r0) \<le> length cs" using skip_ws_length[of cs] by simp
      then have "2 * length (d # r0) + 2 \<le> n" using b unfolding Cons by simp
      then show "parse_members (n + k) (d # r0) = parse_members n (d # r0) \<and>
        parse_elements (n + k) (d # r0) = parse_elements n (d # r0)"
        using IHe IHm by blast
    qed
    show ?thesis
      unfolding Cons using sub
      by (cases "skip_ws cs") (auto simp del: starts_with.simps)
  qed
  have E: "parse_elements (Suc n + k) s = parse_elements (Suc n) s" if b: "2 * length s + 2 \<le> Suc n"
  proof -
    have v: "parse_value (n + k) s = parse_value n s" using IHv b by simp
    show ?thesis
    proof (cases "parse_value n s")
      case None
      then show ?thesis using v by simp
    next
      case (Some a)
      obtain v1 r1 where a: "a = (v1, r1)" by (cases a)
      have l1: "length r1 \<le> length s" using parse_value_length Some a by blast
      show ?thesis
      proof (cases "skip_ws r1")
        case Nil
        then show ?thesis using v Some a by simp
      next
        case (Cons d r')
        have "length (skip_ws r') \<le> length r'" by (rule skip_ws_length)
        moreover have "length r' < length r1" using Cons by (rule skip_ws_Cons_length)
        ultimately have "2 * length (skip_ws r') + 2 \<le> n" using l1 b by linarith
        then have "parse_elements (n + k) (skip_ws r') = parse_elements n (skip_ws r')"
          by (rule IHe)
        then show ?thesis using v Some a Cons by simp
      qed
    qed
  qed
  have M: "parse_members (Suc n + k) s = parse_members (Suc n) s" if b: "2 * length s + 2 \<le> Suc n"
  proof (cases s)
    case Nil
    then show ?thesis by simp
  next
    case (Cons c cs)
    show ?thesis
    proof (cases "parse_chars cs")
      case None
      then show ?thesis unfolding Cons by simp
    next
      case (Some a)
      obtain key r0 where a: "a = (key, r0)" by (cases a)
      have l0: "length r0 \<le> length cs" using parse_chars_length Some a by blast
      show ?thesis
      proof (cases "skip_ws r0")
        case Nil
        then show ?thesis unfolding Cons using Some a by simp
      next
        case c1: (Cons d r1)
        have l1: "length r1 < length r0" using c1 by (rule skip_ws_Cons_length)
        have "length (skip_ws r1) \<le> length r1" by (rule skip_ws_length)
        then have "2 * length (skip_ws r1) + 1 \<le> n" using l0 l1 b unfolding Cons by simp
        then have v: "parse_value (n + k) (skip_ws r1) = parse_value n (skip_ws r1)" by (rule IHv)
        show ?thesis
        proof (cases "parse_value n (skip_ws r1)")
          case None
          then show ?thesis unfolding Cons using Some a c1 v by simp
        next
          case s2: (Some a2)
          obtain v2 r2 where a2: "a2 = (v2, r2)" by (cases a2)
          have l2: "length r2 \<le> length (skip_ws r1)" using parse_value_length s2 a2 by blast
          show ?thesis
          proof (cases "skip_ws r2")
            case Nil
            then show ?thesis unfolding Cons using Some a c1 v s2 a2 by simp
          next
            case c3: (Cons e r3)
            have "length r3 < length r2" using c3 by (rule skip_ws_Cons_length)
            moreover have "length (skip_ws r3) \<le> length r3" by (rule skip_ws_length)
            moreover have "length (skip_ws r1) \<le> length r1" by (rule skip_ws_length)
            ultimately have "2 * length (skip_ws r3) + 2 \<le> n"
              using l0 l1 l2 b unfolding Cons by simp
            then have "parse_members (n + k) (skip_ws r3) = parse_members n (skip_ws r3)"
              by (rule IHm)
            then show ?thesis unfolding Cons using Some a c1 v s2 a2 c3 by simp
          qed
        qed
      qed
    qed
  qed
  show ?case using V E M by blast
qed

lemma parse_value_enough_fuel:
  "2 * length s + 1 \<le> n \<Longrightarrow> parse_value n s = parse_value (2 * length s + 1) s"
  using parse_fuel[of s "2 * length s + 1" "n - (2 * length s + 1)"] by simp




subsection \<open>Matching is complete\<close>









subsection \<open>Brace extraction on a valid record\<close>











subsection \<open>Provider adapters\<close>

lemma validate_messages_None_iff:
  "validate_messages ms = None \<longleftrightarrow>
     (\<forall>m \<in> set ms. msg_role m \<in> {''system'', ''user'', ''assistant''} \<and> msg_content m \<noteq> [])"
  by (induction ms) auto

lemma validate_None_iff: "validate p opts = None \<longleftrightarrow> \<not> bad_request opts"
  by (auto simp: validate_def bad_request_def messages_of_def validate_messages_None_iff
      split: option.splits)

text \<open>
  Claim C3, amended. For each of the OpenAI, OpenRouter, Anthropic and Google adapters,
  a request whose model is absent or not a non-empty string, whose message list is
  absent or empty, or which contains a message with a role outside system, user and
  assistant or with an empty content, is rejected with the error of the validation,
  and no request is sent to the backend. The Ollama adapter does not validate: it sends
  one request, with the model and the messages as they were given.
\<close>

theorem invalid_request_sends_nothing:
  assumes "bad_request opts"
  shows "(\<exists>e. validate ''OpenAI'' opts = Some e \<and> openai_create b1 opts = (Inl e, [])) \<and>
         (\<exists>e. validate ''OpenRouter'' opts = Some e \<and> openrouter_create b2 opts = (Inl e, [])) \<and>
         (\<exists>e. validate ''Anthropic'' opts = Some e \<and> anthropic_create b3 opts = (Inl e, [])) \<and>
         (\<exists>e. validate ''Google'' opts = Some e \<and> google_create b4 opts = (Inl e, [])) \<and>
         (\<exists>request. snd (ollama_create fetch opts) = [request] \<and>
                    ol_model request = model opts \<and> ol_messages request = messages opts)"
proof -
  have v: "\<And>p. \<exists>e. validate p opts = Some e"
    using assms validate_None_iff[of _ opts] by (metis option.exhaust)
  obtain e1 e2 e3 e4 where e: "validate ''OpenAI'' opts = Some e1"
    "validate ''OpenRouter'' opts = Some e2" "validate ''Anthropic'' opts = Some e3"
    "validate ''Google'' opts = Some e4"
    using v by metis
  show ?thesis
    using e by (simp add: openai_create_def openrouter_create_def anthropic_create_def
        google_create_def ollama_create_def Let_def)
qed

text \<open>The four adapters on a request with no model and a message of role \<open>tool\<close>.\<close>

theorem invalid_request_sends_nothing_witness:
  "openai_create accepting_backend c3_opts
     = (Inl ''OpenAI model parameter is required and must be a string'', []) \<and>
   openrouter_create accepting_backend c3_opts
     = (Inl ''OpenRouter model parameter is required and must be a string'', []) \<and>
   anthropic_create c8_backend c3_opts
     = (Inl ''Anthropic model parameter is required and must be a string'', []) \<and>
   google_create accepting_backend c3_opts
     = (Inl ''Google model parameter is required and must be a string'', [])"
proof -
  have b: "bad_request c3_opts"
    by (simp add: bad_request_def c3_opts_def base_opts_def is_nonempty_string_def)
  have v: "\<And>p. validate p c3_opts = Some (p @ '' model parameter is required and must be a string'')"
    by (simp add: validate_def c3_opts_def base_opts_def is_nonempty_string_def)
  show ?thesis
    using invalid_request_sends_nothing[OF b, of accepting_backend accepting_backend
        c8_backend accepting_backend]
    by (simp add: v)
qed

text \<open>
  Claim C3 as stated fails for the fifth adapter: the Ollama adapter has no validation
  and sends the same request, without model and with a message of role \<open>tool\<close> and
  empty content, to its backend.
\<close>

theorem ollama_sends_invalid_request:
  "bad_request c3_opts \<and>
   ollama_create offline_fetch c3_opts =
     (Inl ''fetch failed'',
      [\<lparr>ol_model = None,
        ol_messages = Some [\<lparr>msg_role = ''tool'', msg_content = []\<rparr>],
        ol_stream = False, ol_num_predict = 2048\<rparr>])"
  by (simp add: bad_request_def c3_opts_def base_opts_def is_nonempty_string_def
      ollama_create_def offline_fetch_def)

lemma clamp_above: "hi < x \<Longrightarrow> lo \<le> hi \<Longrightarrow> clamp lo hi x = hi"
  by (simp add: clamp_def)

lemma clamp_below: "x < lo \<Longrightarrow> lo \<le> hi \<Longrightarrow> clamp lo hi x = lo"
  by (simp add: clamp_def)

text \<open>
  Claim C9. Every request that the OpenAI adapter or the OpenRouter adapter sends
  carries temperature 2 when the caller gave a temperature above 2, and top_p 0 when
  the caller gave a top_p below 0; and for a request that passes validation exactly
  one request is sent, and it is the one the backend is called with.
\<close>

theorem openai_compatible_clamping:
  "(\<forall>req \<in> set (snd (openai_create b1 opts)).
      (\<forall>t. temperature opts = Some t \<and> 2 < t \<longrightarrow> req_temperature req = 2) \<and>
      (\<forall>p. top_p opts = Some p \<and> p < 0 \<longrightarrow> req_top_p req = 0)) \<and>
   (\<forall>req \<in> set (snd (openrouter_create b2 opts)).
      (\<forall>t. temperature opts = Some t \<and> 2 < t \<longrightarrow> req_temperature req = 2) \<and>
      (\<forall>p. top_p opts = Some p \<and> p < 0 \<longrightarrow> req_top_p req = 0)) \<and>
   (\<not> bad_request opts \<longrightarrow>
      length (snd (openai_create b1 opts)) = 1 \<and> length (snd (openrouter_create b2 opts)) = 1) \<and>
   (\<not> bad_request opts \<longrightarrow>
      (\<exists>req. openai_create b1 opts =
               (case b1 req of
                  Inr response \<Rightarrow> Inr response
                | Inl error \<Rightarrow> Inl (openai_error error (model_name opts)),
                [req])) \<and>
      (\<exists>req. openrouter_create b2 opts = (b2 req, [req])))"
proof -
  have a: "\<forall>req \<in> set (snd (openai_create b1 opts)).
      (\<forall>t. temperature opts = Some t \<and> 2 < t \<longrightarrow> req_temperature req = 2) \<and>
      (\<forall>p. top_p opts = Some p \<and> p < 0 \<longrightarrow> req_top_p req = 0)"
    by (cases "validate ''OpenAI'' opts")
      (auto simp: openai_create_def Let_def clamp_above clamp_below)
  have b: "\<forall>req \<in> set (snd (openrouter_create b2 opts)).
      (\<forall>t. temperature opts = Some t \<and> 2 < t \<longrightarrow> req_temperature req = 2) \<and>
      (\<forall>p. top_p opts = Some p \<and> p < 0 \<longrightarrow> req_top_p req = 0)"
    by (cases "validate ''OpenRouter'' opts")
      (auto simp: openrouter_create_def Let_def clamp_above clamp_below)
  have c: "\<not> bad_request opts \<longrightarrow>
      length (snd (openai_create b1 opts)) = 1 \<and> length (snd (openrouter_create b2 opts)) = 1"
    using validate_None_iff[of _ opts]
    by (auto simp: openai_create_def openrouter_create_def Let_def)
  have d: "\<not> bad_request opts \<longrightarrow>
      (\<exists>req. openai_create b1 opts =
               (case b1 req of
                  Inr response \<Rightarrow> Inr response
                | Inl error \<Rightarrow> Inl (openai_error error (model_name opts)),
                [req])) \<and>
      (\<exists>req. openrouter_create b2 opts = (b2 req, [req]))"
    using validate_None_iff[of _ opts]
    by (auto simp: openai_create_def openrouter_create_def Let_def)
  show ?thesis using a b c d by blast
qed

text \<open>Temperature 5 and top_p -1 are sent as 2 and 0 by both adapters.\<close>

theorem openai_compatible_clamping_witness:
  "\<not> bad_request c9_opts \<and>
   map req_temperature (snd (openai_create accepting_backend c9_opts)) = [2] \<and>
   map req_top_p (snd (openai_create accepting_backend c9_opts)) = [0] \<and>
   map req_temperature (snd (openrouter_create accepting_backend c9_opts)) = [2] \<and>
   map req_top_p (snd (openrouter_create accepting_backend c9_opts)) = [0]"
proof -
  have nb: "\<not> bad_request c9_opts"
    by (simp add: bad_request_def c9_opts_def base_opts_def is_nonempty_string_def messages_of_def)
  have t: "temperature c9_opts = Some 5 \<and> (2::rat) < 5" "top_p c9_opts = Some (- 1) \<and> (- 1 :: rat) < 0"
    by (simp_all add: c9_opts_def base_opts_def)
  let ?a = "snd (openai_create accepting_backend c9_opts :: (string + unit) \<times> chat_request list)"
  let ?b = "snd (openrouter_create accepting_backend c9_opts :: (string + unit) \<times> chat_request list)"
  from openai_compatible_clamping[of accepting_backend c9_opts accepting_backend]
  have all: "\<forall>req \<in> set ?a. req_temperature req = 2 \<and> req_top_p req = 0"
    "\<forall>req \<in> set ?b. req_temperature req = 2 \<and> req_top_p req = 0"
    and len: "length ?a = 1" "length ?b = 1"
    using nb t by blast+
  obtain x where x: "?a = [x]" using len(1) by (cases ?a) auto
  obtain y where y: "?b = [y]" using len(2) by (cases ?b) auto
  show ?thesis using nb all unfolding x y by simp
qed

lemma join_nonempty: "xs \<noteq> [] \<Longrightarrow> \<forall>x \<in> set xs. x \<noteq> [] \<Longrightarrow> join sep xs \<noteq> []"
  by (induction sep xs rule: join.induct) auto

lemma valid_contents_nonempty:
  "\<not> bad_request opts \<Longrightarrow> \<forall>m \<in> set (messages_of opts). msg_content m \<noteq> []"
  by (auto simp: bad_request_def)

lemma str_or_empty: "str_or t [] = (case t of Some s \<Rightarrow> s | None \<Rightarrow> [])"
  by (simp add: str_or_def split: option.splits)

text \<open>
  Claim C8. For a request that passes validation, the Anthropic adapter rejects it
  without a call when the first message that is not a system message is not a user
  message; otherwise it sends exactly one request, whose message list is the messages
  that are not system messages, in order, whose separate system field is the contents
  of the system messages in order, joined by a blank line (and absent when there is
  none), and whose stop sequences are the first four of the caller's; and when the
  backend answers with a sequence of blocks, the text returned is the concatenation of
  the texts of the blocks of type text, in order.
\<close>

theorem anthropic_request_and_response:
  assumes "\<not> bad_request opts"
  shows "(conversationMessages opts \<noteq> [] \<and> msg_role (hd (conversationMessages opts)) \<noteq> ''user'' \<longrightarrow>
            anthropic_create backend opts
              = (Inl ''Anthropic conversation must start with a user message'', [])) \<and>
         (conversationMessages opts = [] \<or> msg_role (hd (conversationMessages opts)) = ''user'' \<longrightarrow>
            (\<exists>p. snd (anthropic_create backend opts) = [p] \<and>
                 an_messages p = filter (\<lambda>m. msg_role m \<noteq> ''system'') (messages_of opts) \<and>
                 an_system p =
                   (if filter (\<lambda>m. msg_role m = ''system'') (messages_of opts) = [] then None
                    else Some (join [LF, LF]
                                 (map msg_content
                                    (filter (\<lambda>m. msg_role m = ''system'') (messages_of opts))))) \<and>
                 an_stop_sequences p = map_option (take 4) (stop_sequences opts) \<and>
                 (\<forall>l. an_stop_sequences p = Some l \<longrightarrow> length l \<le> 4) \<and>
                 (\<forall>response blocks.
                    backend p = Inr response \<and> resp_content response = Blocks blocks \<longrightarrow>
                    (\<exists>c. fst (anthropic_create backend opts) = Inr c \<and>
                         out_content c =
                           concat (map (\<lambda>b. case block_text b of Some t \<Rightarrow> t | None \<Rightarrow> [])
                                       (filter (\<lambda>b. block_type b = ''text'') blocks))))))"
proof -
  have v: "validate ''Anthropic'' opts = None" using assms validate_None_iff by blast
  have ne: "systemMessages opts \<noteq> [] \<Longrightarrow>
            join [LF, LF] (map msg_content (systemMessages opts)) \<noteq> []"
    using valid_contents_nonempty[OF assms]
    by (intro join_nonempty) (auto simp: systemMessages_def)
  show ?thesis
  proof (intro conjI impI)
    assume "conversationMessages opts \<noteq> [] \<and> msg_role (hd (conversationMessages opts)) \<noteq> ''user''"
    then show "anthropic_create backend opts
              = (Inl ''Anthropic conversation must start with a user message'', [])"
      by (simp add: anthropic_create_def v)
  next
    assume a: "conversationMessages opts = [] \<or> msg_role (hd (conversationMessages opts)) = ''user''"
    define p where "p =
       \<lparr>an_model = model_name opts,
        an_messages = conversationMessages opts,
        an_max_tokens = num_or (max_tokens opts) 2048,
        an_system = (if systemMessages opts \<noteq> []
                     then Some (join [LF, LF] (map msg_content (systemMessages opts))) else None),
        an_temperature = map_option (clamp 0 1) (temperature opts),
        an_top_p = map_option (clamp 0 1) (top_p opts),
        an_stop_sequences = map_option (take 4) (stop_sequences opts),
        an_stream = stream opts\<rparr>"
    have run: "anthropic_create backend opts =
       (case backend p of
          Inr response \<Rightarrow>
            Inr \<lparr>out_content = anthropic_text (resp_content response),
                 out_role = ''assistant'',
                 out_finish_reason = str_or (resp_stop_reason response) ''stop'',
                 out_usage = (case resp_usage response of Some u \<Rightarrow> u | None \<Rightarrow> zero_usage),
                 out_model = str_or (resp_model response) (model_name opts)\<rparr>
        | Inl error \<Rightarrow> Inl (anthropic_error error (model_name opts)),
        [p])"
      using a ne by (auto simp: anthropic_create_def v Let_def p_def)
    have "snd (anthropic_create backend opts) = [p]" by (simp add: run)
    moreover have "an_messages p = filter (\<lambda>m. msg_role m \<noteq> ''system'') (messages_of opts)"
      by (simp add: p_def conversationMessages_def)
    moreover have "an_system p =
                   (if filter (\<lambda>m. msg_role m = ''system'') (messages_of opts) = [] then None
                    else Some (join [LF, LF]
                                 (map msg_content
                                    (filter (\<lambda>m. msg_role m = ''system'') (messages_of opts)))))"
      by (simp add: p_def systemMessages_def)
    moreover have "an_stop_sequences p = map_option (take 4) (stop_sequences opts)"
      by (simp add: p_def)
    moreover have "\<forall>l. an_stop_sequences p = Some l \<longrightarrow> length l \<le> 4"
      by (auto simp: p_def)
    moreover have "\<forall>response blocks.
                    backend p = Inr response \<and> resp_content response = Blocks blocks \<longrightarrow>
                    (\<exists>c. fst (anthropic_create backend opts) = Inr c \<and>
                         out_content c =
                           concat (map (\<lambda>b. case block_text b of Some t \<Rightarrow> t | None \<Rightarrow> [])
                                       (filter (\<lambda>b. block_type b = ''text'') blocks)))"
      by (auto simp: run anthropic_text_def str_or_empty)
    ultimately show "\<exists>p. snd (anthropic_create backend opts) = [p] \<and>
                 an_messages p = filter (\<lambda>m. msg_role m \<noteq> ''system'') (messages_of opts) \<and>
                 an_system p =
                   (if filter (\<lambda>m. msg_role m = ''system'') (messages_of opts) = [] then None
                    else Some (join [LF, LF]
                                 (map msg_content
                                    (filter (\<lambda>m. msg_role m = ''system'') (messages_of opts))))) \<and>
                 an_stop_sequences p = map_option (take 4) (stop_sequences opts) \<and>
                 (\<forall>l. an_stop_sequences p = Some l \<longrightarrow> length l \<le> 4) \<and>
                 (\<forall>response blocks.
                    backend p = Inr response \<and> resp_content response = Blocks blocks \<longrightarrow>
                    (\<exists>c. fst (anthropic_create backend opts) = Inr c \<and>
                         out_content c =
                           concat (map (\<lambda>b. case block_text b of Some t \<Rightarrow> t | None \<Rightarrow> [])
                                       (filter (\<lambda>b. block_type b = ''text'') blocks))))"
      by blast
  qed
qed

text \<open>Two system messages around a user message, six stop sequences and a response
  of three blocks; and a conversation that starts with an assistant message.\<close>

theorem anthropic_request_and_response_witness:
  "(\<exists>p. snd (anthropic_create c8_backend c8_opts) = [p] \<and>
        an_messages p = [\<lparr>msg_role = ''user'', msg_content = ''hi''\<rparr>] \<and>
        an_system p = Some (''Be brief.'' @ [LF, LF] @ ''Use English.'') \<and>
        an_stop_sequences p = Some [''a'', ''b'', ''c'', ''d''] \<and>
        (\<exists>c. fst (anthropic_create c8_backend c8_opts) = Inr c \<and> out_content c = ''Hello there'')) \<and>
   anthropic_create c8_backend c8_reject_opts
     = (Inl ''Anthropic conversation must start with a user message'', [])"
proof -
  have nb: "\<not> bad_request c8_opts" "\<not> bad_request c8_reject_opts"
    by (simp_all add: bad_request_def c8_opts_def c8_reject_opts_def base_opts_def
        is_nonempty_string_def messages_of_def)
  have conv: "conversationMessages c8_opts = [\<lparr>msg_role = ''user'', msg_content = ''hi''\<rparr>]"
    "conversationMessages c8_reject_opts = [\<lparr>msg_role = ''assistant'', msg_content = ''Hello''\<rparr>]"
    by (simp_all add: conversationMessages_def messages_of_def c8_opts_def c8_reject_opts_def
        base_opts_def)
  have ms: "messages_of c8_opts = [\<lparr>msg_role = ''system'', msg_content = ''Be brief.''\<rparr>,
                                   \<lparr>msg_role = ''user'', msg_content = ''hi''\<rparr>,
                                   \<lparr>msg_role = ''system'', msg_content = ''Use English.''\<rparr>]"
    "stop_sequences c8_opts = Some [''a'', ''b'', ''c'', ''d'', ''e'', ''f'']"
    by (simp_all add: messages_of_def c8_opts_def base_opts_def)
  have r: "anthropic_create c8_backend c8_reject_opts
     = (Inl ''Anthropic conversation must start with a user message'', [])"
    using anthropic_request_and_response[OF nb(2), of c8_backend] conv(2) by simp
  obtain p where p: "snd (anthropic_create c8_backend c8_opts) = [p]"
    "an_messages p = [\<lparr>msg_role = ''user'', msg_content = ''hi''\<rparr>]"
    "an_system p = Some (''Be brief.'' @ [LF, LF] @ ''Use English.'')"
    "an_stop_sequences p = Some [''a'', ''b'', ''c'', ''d'']"
    and resp: "\<forall>response blocks.
                    c8_backend p = Inr response \<and> resp_content response = Blocks blocks \<longrightarrow>
                    (\<exists>c. fst (anthropic_create c8_backend c8_opts) = Inr c \<and>
                         out_content c =
                           concat (map (\<lambda>b. case block_text b of Some t \<Rightarrow> t | None \<Rightarrow> [])
                                       (filter (\<lambda>b. block_type b = ''text'') blocks)))"
    using anthropic_request_and_response[OF nb(1), of c8_backend] conv(1)
    by (auto simp: ms)
  have "\<exists>c. fst (anthropic_create c8_backend c8_opts) = Inr c \<and> out_content c = ''Hello there''"
    using resp[rule_format, of _ "[\<lparr>block_type = ''text'', block_text = Some ''Hello''\<rparr>,
                                  \<lparr>block_type = ''tool_use'', block_text = Some ''skipped''\<rparr>,
                                  \<lparr>block_type = ''text'', block_text = Some '' there''\<rparr>]"]
    by (simp add: c8_backend_def)
  then show ?thesis using p r by blast
qed


end
